theory Spec2Isabelle
  imports Main "HOL-Library.Word"
begin

section \<open>Values on the two sides of the foreign-call boundary\<close>

text \<open>
  The C files under \<^verbatim>\<open>src/main/c/cext\<close> (\<^verbatim>\<open>call.c\<close>, \<^verbatim>\<open>ivar.c\<close>, \<^verbatim>\<open>printf.c\<close>)
  forward every API function to the managed runtime through \<^verbatim>\<open>polyglot_invoke\<close>.
  A \<^verbatim>\<open>VALUE\<close> is the native handle of a managed object, an \<^verbatim>\<open>ID\<close> the native token
  of a symbol, an \<^verbatim>\<open>rb_encoding *\<close> an opaque pointer; all three are plain numbers to C.
  They are compared for equality only, never computed with. A C \<^verbatim>\<open>int\<close> is a 32-bit
  word, compared as a signed number (\<open><s\<close>) and converted to a \<^verbatim>\<open>long\<close> or to an
  index by its signed value (\<open>sint\<close>).
\<close>

type_synonym c_int = "32 word"
type_synonym VALUE = nat
type_synonym ID = nat
type_synonym rb_encoding = nat

text \<open>Managed references, as far as the forwarded operations tell them apart.\<close>

datatype ref =
    RNil
  | RSymbol string
  | RString string
  | RObject nat
  | RException string string

text \<open>
  Native function pointers: \<^verbatim>\<open>NULL\<close>, the sentinel \<^verbatim>\<open>RUBY_UBF_IO\<close>, the addresses of
  the two static trampolines of \<^verbatim>\<open>call.c\<close>, and the functions of the extension.
\<close>

datatype native_fn =
    NULL
  | RUBY_UBF_IO
  | addr_call_gvl_call_function
  | addr_call_unblock_function
  | extension_fn nat

text \<open>
  A \<^verbatim>\<open>void *\<close>: an address the shim never looks behind, or the address of one of the
  two stack structures of \<^verbatim>\<open>rb_thread_call_without_gvl\<close>, read with the fields the
  structure holds (\<^verbatim>\<open>struct gvl_call_data\<close> and \<^verbatim>\<open>struct unblock_function_data\<close>
  both hold a function pointer and a data pointer).
\<close>

datatype void_ptr =
    Addr nat
  | gvl_call_data_at native_fn void_ptr
  | unblock_function_data_at native_fn void_ptr

text \<open>What \<^verbatim>\<open>polyglot_invoke\<close> takes as an argument and gives back.\<close>

datatype pv =
    Managed ref
  | I32 c_int
  | CString string
  | FunPtr native_fn
  | VoidPtr void_ptr

datatype target = RUBY_CEXT | Receiver ref

datatype invocation = Invoke target string "pv list"

text \<open>
  How a call of the shim can end without returning: an exception of the managed runtime
  unwinds the native frames (\<open>Raised\<close>), \<^verbatim>\<open>rb_tr_error\<close> aborts (\<open>Fatal\<close>), or the
  code reads a C array or an argument list beyond what it was given (\<open>Invalid_Read\<close>).
  \<open>Outside_Model\<close> marks a \<^verbatim>\<open>printf\<close> directive this development does not evaluate.
\<close>

datatype error = Raised ref | Fatal string | Invalid_Read | Outside_Model

text \<open>
  The state a call runs in: the managed runtime's own state \<open>host\<close>, which the shim
  never inspects; the bridge invocations that the code of the three files has issued so
  far, in order (what the functions of the other C files do stays inside \<open>host\<close>); and
  the elements of the arrays built through the array helpers.
\<close>

record 'h cext_state =
  host :: 'h
  calls :: "invocation list"
  arrays :: "VALUE \<Rightarrow> VALUE list option"

text \<open>
  Everything \<^verbatim>\<open>truffleruby-impl.h\<close> and the managed runtime supply, taken as given:
  the runtime's answer to an invocation (\<open>Inl\<close> an exception, \<open>Inr\<close> the raw result),
  the handle conversions \<^verbatim>\<open>rb_tr_wrap\<close> and \<^verbatim>\<open>rb_tr_unwrap\<close> (plain functions to the
  C code, which never checks what they return), the constants, the symbol conversions and
  the object constructors of the other C files.
\<close>

record 'h env =
  invoke_host :: "target \<Rightarrow> string \<Rightarrow> pv list \<Rightarrow> 'h \<Rightarrow> (ref + pv) \<times> 'h"
  rb_tr_wrap :: "pv \<Rightarrow> VALUE"
  rb_tr_unwrap :: "VALUE \<Rightarrow> ref"
  Qnil :: VALUE
  rb_eArgError :: VALUE
  ID2SYM :: "ID \<Rightarrow> VALUE"
  rb_intern :: "string \<Rightarrow> ID"
  rb_to_id :: "VALUE \<Rightarrow> 'h \<Rightarrow> (ref + ID) \<times> 'h"
  rb_str_new_cstr :: "string \<Rightarrow> 'h \<Rightarrow> (ref + VALUE) \<times> 'h"
  rb_enc_str_new_cstr :: "string \<Rightarrow> rb_encoding \<Rightarrow> 'h \<Rightarrow> (ref + VALUE) \<times> 'h"
  rb_exc_new3 :: "VALUE \<Rightarrow> VALUE \<Rightarrow> 'h \<Rightarrow> (ref + VALUE) \<times> 'h"
  rb_ascii8bit_encoding :: rb_encoding
  ary_alloc :: "int \<Rightarrow> 'h \<Rightarrow> (ref + VALUE) \<times> 'h"

type_synonym ('a, 'h) cext = "'h cext_state \<Rightarrow> (error + 'a) \<times> 'h cext_state"

section \<open>Sequencing, and the bridge primitive\<close>

definition ret :: "'a \<Rightarrow> ('a, 'h) cext" where
  "ret x s = (Inr x, s)"

definition then_do :: "('a, 'h) cext \<Rightarrow> ('a \<Rightarrow> ('b, 'h) cext) \<Rightarrow> ('b, 'h) cext" where
  "then_do m f s = (case m s of (Inl e, s') \<Rightarrow> (Inl e, s') | (Inr x, s') \<Rightarrow> f x s')"

text \<open>A function of another C file: it works on the runtime's state and may raise.\<close>

definition extern :: "('h \<Rightarrow> (ref + 'a) \<times> 'h) \<Rightarrow> ('a, 'h) cext" where
  "extern f s =
     (case f (host s) of
        (Inl e, h') \<Rightarrow> (Inl (Raised e), s\<lparr>host := h'\<rparr>)
      | (Inr x, h') \<Rightarrow> (Inr x, s\<lparr>host := h'\<rparr>))"

text \<open>
  \<^verbatim>\<open>polyglot_invoke(target, name, args...)\<close>: the invocation is recorded, the runtime
  answers, and an exception of the runtime leaves the native code.
\<close>

definition polyglot_invoke :: "'h env \<Rightarrow> target \<Rightarrow> string \<Rightarrow> pv list \<Rightarrow> (pv, 'h) cext" where
  "polyglot_invoke E tgt name args s =
     (case invoke_host E tgt name args (host s) of
        (Inl e, h') \<Rightarrow> (Inl (Raised e), s\<lparr>host := h', calls := calls s @ [Invoke tgt name args]\<rparr>)
      | (Inr r, h') \<Rightarrow> (Inr r, s\<lparr>host := h', calls := calls s @ [Invoke tgt name args]\<rparr>))"

text \<open>
  Modelled from the spec: \<^verbatim>\<open>rb_tr_error(message)\<close>, defined in another C file, is the
  fatal internal error: the call is aborted and nothing of it continues.
\<close>

definition rb_tr_error :: "string \<Rightarrow> ('a, 'h) cext" where
  "rb_tr_error msg s = (Inl (Fatal msg), s)"

text \<open>
  Modelled from the spec: the invocation macros of \<^verbatim>\<open>truffleruby-impl.h\<close>, which is not
  among the sources. Arguments cross the bridge unwrapped; the raw invoke returns the raw
  result, the wrapping invoke wraps it as a handle; \<^verbatim>\<open>RUBY_INVOKE\<close> directs the
  invocation at an unwrapped receiver instead of the runtime.
\<close>

definition unwrap_args :: "'h env \<Rightarrow> VALUE list \<Rightarrow> pv list" where
  "unwrap_args E vs = map (\<lambda>v. Managed (rb_tr_unwrap E v)) vs"

definition RUBY_CEXT_INVOKE_NO_WRAP :: "'h env \<Rightarrow> string \<Rightarrow> VALUE list \<Rightarrow> (pv, 'h) cext" where
  "RUBY_CEXT_INVOKE_NO_WRAP E name vs = polyglot_invoke E RUBY_CEXT name (unwrap_args E vs)"

definition RUBY_CEXT_INVOKE :: "'h env \<Rightarrow> string \<Rightarrow> VALUE list \<Rightarrow> (VALUE, 'h) cext" where
  "RUBY_CEXT_INVOKE E name vs =
     then_do (RUBY_CEXT_INVOKE_NO_WRAP E name vs) (\<lambda>r. ret (rb_tr_wrap E r))"

definition RUBY_INVOKE :: "'h env \<Rightarrow> VALUE \<Rightarrow> string \<Rightarrow> VALUE list \<Rightarrow> (VALUE, 'h) cext" where
  "RUBY_INVOKE E recv name vs =
     then_do (polyglot_invoke E (Receiver (rb_tr_unwrap E recv)) name (unwrap_args E vs))
       (\<lambda>r. ret (rb_tr_wrap E r))"

section \<open>Helpers of the other C files\<close>

text \<open>
  Modelled from the spec: the macro \<^verbatim>\<open>NIL_P\<close> of the headers, which are not among the
  sources. "Is a block present" is decided on the handle of the block's proc: it is
  compared with \<^verbatim>\<open>Qnil\<close>, the handle of nil.
\<close>

definition NIL_P :: "'h env \<Rightarrow> VALUE \<Rightarrow> bool" where
  "NIL_P E v = (v = Qnil E)"

text \<open>
  Modelled from the spec: the array helpers \<^verbatim>\<open>rb_ary_new_capa\<close>, \<^verbatim>\<open>rb_ary_store\<close>
  and \<^verbatim>\<open>rb_ary_new4\<close> (the array functions are not among the sources), which build the
  "single ordered array-like handle". The runtime allocates the array and hands back its
  handle, or raises; a new array is empty; a store at an index from the length on fills
  the gap with \<^verbatim>\<open>Qnil\<close>; a negative index counts from the end. \<^verbatim>\<open>rb_ary_new4(n, elts)\<close>
  copies the first \<open>n\<close> elements of the C array.
\<close>

definition rb_ary_new_capa :: "'h env \<Rightarrow> int \<Rightarrow> (VALUE, 'h) cext" where
  "rb_ary_new_capa E capa =
     then_do (extern (ary_alloc E capa))
       (\<lambda>ary s. (Inr ary, s\<lparr>arrays := (arrays s)(ary \<mapsto> [])\<rparr>))"

definition rb_ary_store :: "'h env \<Rightarrow> VALUE \<Rightarrow> int \<Rightarrow> VALUE \<Rightarrow> (unit, 'h) cext" where
  "rb_ary_store E ary idx v s =
     (case arrays s ary of
        None \<Rightarrow> (Inl (Raised (RException ''TypeError'' ''not an array'')), s)
      | Some xs \<Rightarrow>
          (let len = int (length xs); j = (if idx < 0 then idx + len else idx) in
           if j < 0 then (Inl (Raised (RException ''IndexError'' ''index too small for array'')), s)
           else if j < len then (Inr (), s\<lparr>arrays := (arrays s)(ary \<mapsto> xs[nat j := v])\<rparr>)
           else (Inr (), s\<lparr>arrays := (arrays s)(ary \<mapsto> xs @ replicate (nat (j - len)) (Qnil E) @ [v])\<rparr>)))"

definition rb_ary_new4 :: "'h env \<Rightarrow> int \<Rightarrow> VALUE list \<Rightarrow> (VALUE, 'h) cext" where
  "rb_ary_new4 E n elts =
     then_do (rb_ary_new_capa E n)
       (\<lambda>ary s. if n \<le> int (length elts)
                then (Inr ary, s\<lparr>arrays := (arrays s)(ary \<mapsto> take (nat n) elts)\<rparr>)
                else (Inl Invalid_Read, s))"

text \<open>
  Modelled from the spec: \<^verbatim>\<open>rb_exc_raise\<close>, defined in another C file. It raises through
  the bridge and follows the template of the functions that must not return: if the
  bridge's invocation nonetheless returns, that is a fatal internal error.
\<close>

definition rb_exc_raise :: "'h env \<Rightarrow> VALUE \<Rightarrow> (unit, 'h) cext" where
  "rb_exc_raise E exc =
     then_do (RUBY_CEXT_INVOKE_NO_WRAP E ''rb_exc_raise'' [exc])
       (\<lambda>_. rb_tr_error ''rb_exc_raise should not return'')"

text \<open>
  The arguments of a variadic call, as \<^verbatim>\<open>polyglot_get_arg(k)\<close> reads them: argument
  \<open>k\<close> of the running function, and the cast of what it finds to \<^verbatim>\<open>VALUE\<close>
  (an unsigned 64-bit number).
\<close>

datatype c_arg = IntArg c_int | ValueArg VALUE

definition polyglot_get_arg :: "c_arg list \<Rightarrow> c_int \<Rightarrow> (c_arg, 'h) cext" where
  "polyglot_get_arg frame k s =
     (if 0 \<le> sint k \<and> sint k < int (length frame) then (Inr (frame ! nat (sint k)), s)
      else (Inl Invalid_Read, s))"

fun as_VALUE :: "c_arg \<Rightarrow> VALUE" where
  "as_VALUE (ValueArg v) = v"
| "as_VALUE (IntArg i) = nat (sint i mod 2 ^ 64)"

text \<open>Element \<open>i\<close> of a C array of handles that holds the elements \<open>argv\<close>.\<close>

definition c_array_read :: "VALUE list \<Rightarrow> c_int \<Rightarrow> (VALUE, 'h) cext" where
  "c_array_read argv i s =
     (if 0 \<le> sint i \<and> sint i < int (length argv) then (Inr (argv ! nat (sint i)), s)
      else (Inl Invalid_Read, s))"

section \<open>call.c\<close>

definition rb_check_arity :: "'h env \<Rightarrow> c_int \<Rightarrow> c_int \<Rightarrow> c_int \<Rightarrow> (c_int, 'h) cext" where
  "rb_check_arity E argc min_n max_n =
     then_do (polyglot_invoke E RUBY_CEXT ''rb_check_arity'' [I32 argc, I32 min_n, I32 max_n])
       (\<lambda>_. ret argc)"

definition rb_error_arity :: "'h env \<Rightarrow> c_int \<Rightarrow> c_int \<Rightarrow> c_int \<Rightarrow> (unit, 'h) cext" where
  "rb_error_arity E argc min_n max_n =
     then_do (polyglot_invoke E RUBY_CEXT ''rb_arity_error_string'' [I32 argc, I32 min_n, I32 max_n])
       (\<lambda>msg. then_do (extern (rb_exc_new3 E (rb_eArgError E) (rb_tr_wrap E msg)))
          (\<lambda>exc. rb_exc_raise E exc))"

definition rb_iterate :: "'h env \<Rightarrow> native_fn \<Rightarrow> VALUE \<Rightarrow> native_fn \<Rightarrow> VALUE \<Rightarrow> (VALUE, 'h) cext" where
  "rb_iterate E fn arg1 block arg2 =
     then_do (polyglot_invoke E RUBY_CEXT ''rb_iterate''
                [FunPtr fn, Managed (rb_tr_unwrap E arg1), FunPtr block, Managed (rb_tr_unwrap E arg2)])
       (\<lambda>r. ret (rb_tr_wrap E r))"

definition rb_funcallv :: "'h env \<Rightarrow> VALUE \<Rightarrow> ID \<Rightarrow> c_int \<Rightarrow> VALUE list \<Rightarrow> (VALUE, 'h) cext" where
  "rb_funcallv E object name args_count args =
     then_do (rb_ary_new4 E (sint args_count) args)
       (\<lambda>ary. RUBY_CEXT_INVOKE E ''rb_funcallv'' [object, ID2SYM E name, ary])"

definition rb_funcallv_public :: "'h env \<Rightarrow> VALUE \<Rightarrow> ID \<Rightarrow> c_int \<Rightarrow> VALUE list \<Rightarrow> (VALUE, 'h) cext" where
  "rb_funcallv_public E object name args_count args =
     then_do (rb_ary_new4 E (sint args_count) args)
       (\<lambda>ary. RUBY_CEXT_INVOKE E ''rb_funcallv_public'' [object, ID2SYM E name, ary])"

definition rb_apply :: "'h env \<Rightarrow> VALUE \<Rightarrow> ID \<Rightarrow> VALUE \<Rightarrow> (VALUE, 'h) cext" where
  "rb_apply E object name args = RUBY_CEXT_INVOKE E ''rb_apply'' [object, ID2SYM E name, args]"

definition rb_block_proc :: "'h env \<Rightarrow> (VALUE, 'h) cext" where
  "rb_block_proc E = RUBY_CEXT_INVOKE E ''rb_block_proc'' []"

definition rb_block_lambda :: "'h env \<Rightarrow> (VALUE, 'h) cext" where
  "rb_block_lambda E = rb_block_proc E"

definition rb_block_given_p :: "'h env \<Rightarrow> (bool, 'h) cext" where
  "rb_block_given_p E = then_do (rb_block_proc E) (\<lambda>p. ret (\<not> NIL_P E p))"

definition rb_funcall_with_block ::
  "'h env \<Rightarrow> VALUE \<Rightarrow> ID \<Rightarrow> c_int \<Rightarrow> VALUE list \<Rightarrow> VALUE \<Rightarrow> (VALUE, 'h) cext" where
  "rb_funcall_with_block E recv mid argc argv pass_procval =
     then_do (rb_ary_new4 E (sint argc) argv)
       (\<lambda>ary. RUBY_CEXT_INVOKE E ''rb_funcall_with_block'' [recv, ID2SYM E mid, ary, pass_procval])"

text \<open>
  The generic block-call path, the last branch of \<^verbatim>\<open>rb_block_call\<close> on its own: the
  bridge operation \<^verbatim>\<open>rb_block_call\<close>, which is handed the native callback and its data
  pointer.
\<close>

definition generic_block_call ::
  "'h env \<Rightarrow> VALUE \<Rightarrow> ID \<Rightarrow> c_int \<Rightarrow> VALUE list \<Rightarrow> native_fn \<Rightarrow> VALUE \<Rightarrow> (VALUE, 'h) cext" where
  "generic_block_call E object name args_count args block_call_func data =
     then_do (rb_ary_new4 E (sint args_count) args)
       (\<lambda>ary. then_do
          (polyglot_invoke E RUBY_CEXT ''rb_block_call''
             [Managed (rb_tr_unwrap E object), Managed (rb_tr_unwrap E (ID2SYM E name)),
              Managed (rb_tr_unwrap E ary), FunPtr block_call_func, VoidPtr (Addr data)])
          (\<lambda>r. ret (rb_tr_wrap E r)))"

definition rb_block_call ::
  "'h env \<Rightarrow> VALUE \<Rightarrow> ID \<Rightarrow> c_int \<Rightarrow> VALUE list \<Rightarrow> native_fn \<Rightarrow> VALUE \<Rightarrow> (VALUE, 'h) cext" where
  "rb_block_call E object name args_count args block_call_func data =
     then_do (rb_block_given_p E)
       (\<lambda>given.
          if given then
            then_do (rb_block_proc E)
              (\<lambda>p. rb_funcall_with_block E object name args_count args p)
          else if block_call_func = NULL then
            rb_funcallv E object name args_count args
          else
            generic_block_call E object name args_count args block_call_func data)"

definition rb_each :: "'h env \<Rightarrow> VALUE \<Rightarrow> (VALUE, 'h) cext" where
  "rb_each E array =
     then_do (rb_block_given_p E)
       (\<lambda>given.
          if given then
            then_do (rb_block_proc E)
              (\<lambda>p. rb_funcall_with_block E array (rb_intern E ''each'') 0 [] p)
          else RUBY_INVOKE E array ''each'' [])"

definition rb_call_super :: "'h env \<Rightarrow> c_int \<Rightarrow> VALUE list \<Rightarrow> (VALUE, 'h) cext" where
  "rb_call_super E args_count args =
     then_do (rb_ary_new4 E (sint args_count) args) (\<lambda>ary. RUBY_CEXT_INVOKE E ''rb_call_super'' [ary])"

definition rb_yield :: "'h env \<Rightarrow> VALUE \<Rightarrow> (VALUE, 'h) cext" where
  "rb_yield E v =
     then_do (rb_block_given_p E)
       (\<lambda>given.
          if given then RUBY_CEXT_INVOKE E ''rb_yield'' [v]
          else RUBY_CEXT_INVOKE E ''yield_no_block'' [])"

definition rb_yield_splat :: "'h env \<Rightarrow> VALUE \<Rightarrow> (VALUE, 'h) cext" where
  "rb_yield_splat E values =
     then_do (rb_block_given_p E)
       (\<lambda>given.
          if given then RUBY_CEXT_INVOKE E ''rb_yield_splat'' [values]
          else RUBY_CEXT_INVOKE E ''yield_no_block'' [])"

text \<open>
  The loop counter stays below \<open>n\<close>, so its increment does not wrap around.
\<close>

lemma sint_succ:
  assumes "i <s (n :: c_int)"
  shows "sint (i + 1) = sint i + 1"
proof -
  have lt: "sint i < sint n" using assms by (simp add: word_sless_alt)
  have "sint n < 2 ^ 31" using sint_lt [of n] by simp
  then have up: "sint i + 1 < 2 ^ 31" using lt by simp
  have "- (2 ^ 31) \<le> sint i" using sint_ge [of i] by simp
  then have lo: "- (2 ^ 31) \<le> sint i + 1" by simp
  have "sint (i + 1) = signed_take_bit 31 (sint i + 1)"
    by (simp add: sint_word_ariths)
  also have "\<dots> = sint i + 1"
    using lo up by (simp add: signed_take_bit_int_eq_self)
  finally show ?thesis .
qed

text \<open>
  The loop of \<^verbatim>\<open>rb_yield_values\<close>:
  \<^verbatim>\<open>for (int i = 0; i < n; i++) rb_ary_store(values, i, (VALUE) polyglot_get_arg(1+i));\<close>
\<close>

function rb_yield_values_loop ::
  "'h env \<Rightarrow> VALUE \<Rightarrow> c_arg list \<Rightarrow> c_int \<Rightarrow> c_int \<Rightarrow> (unit, 'h) cext" where
  "rb_yield_values_loop E values frame i n s =
     (if i <s n then
        (case polyglot_get_arg frame (1 + i) s of
           (Inl e, s1) \<Rightarrow> (Inl e, s1)
         | (Inr a, s1) \<Rightarrow>
             (case rb_ary_store E values (sint i) (as_VALUE a) s1 of
                (Inl e, s2) \<Rightarrow> (Inl e, s2)
              | (Inr _, s2) \<Rightarrow> rb_yield_values_loop E values frame (i + 1) n s2))
      else (Inr (), s))"
  by pat_completeness auto
termination
  by (relation "measure (\<lambda>(E, values, frame, i, n, s). nat (sint n - sint i))")
    (auto simp: sint_succ word_sless_alt)

declare rb_yield_values_loop.simps [simp del]

definition rb_yield_values :: "'h env \<Rightarrow> c_int \<Rightarrow> VALUE list \<Rightarrow> (VALUE, 'h) cext" where
  "rb_yield_values E n varargs =
     then_do (rb_ary_new_capa E (sint n))
       (\<lambda>values. then_do (rb_yield_values_loop E values (IntArg n # map ValueArg varargs) 0 n)
          (\<lambda>_. rb_yield_splat E values))"

text \<open>
  The loop of \<^verbatim>\<open>rb_yield_values2\<close>:
  \<^verbatim>\<open>for (int i = 0; i < n; i++) rb_ary_store(values, i, (VALUE) argv[i]);\<close>
\<close>

function rb_yield_values2_loop ::
  "'h env \<Rightarrow> VALUE \<Rightarrow> VALUE list \<Rightarrow> c_int \<Rightarrow> c_int \<Rightarrow> (unit, 'h) cext" where
  "rb_yield_values2_loop E values argv i n s =
     (if i <s n then
        (case c_array_read argv i s of
           (Inl e, s1) \<Rightarrow> (Inl e, s1)
         | (Inr a, s1) \<Rightarrow>
             (case rb_ary_store E values (sint i) a s1 of
                (Inl e, s2) \<Rightarrow> (Inl e, s2)
              | (Inr _, s2) \<Rightarrow> rb_yield_values2_loop E values argv (i + 1) n s2))
      else (Inr (), s))"
  by pat_completeness auto
termination
  by (relation "measure (\<lambda>(E, values, argv, i, n, s). nat (sint n - sint i))")
    (auto simp: sint_succ word_sless_alt)

declare rb_yield_values2_loop.simps [simp del]

definition rb_yield_values2 :: "'h env \<Rightarrow> c_int \<Rightarrow> VALUE list \<Rightarrow> (VALUE, 'h) cext" where
  "rb_yield_values2 E n argv =
     then_do (rb_ary_new_capa E (sint n))
       (\<lambda>values. then_do (rb_yield_values2_loop E values argv 0 n)
          (\<lambda>_. rb_yield_splat E values))"

definition rb_thread_call_with_gvl :: "'h env \<Rightarrow> native_fn \<Rightarrow> void_ptr \<Rightarrow> (pv, 'h) cext" where
  "rb_thread_call_with_gvl E fn data1 =
     polyglot_invoke E RUBY_CEXT ''rb_thread_call_with_gvl'' [FunPtr fn, VoidPtr data1]"

text \<open>
  The two static trampolines. Each reads the structure its argument points to and calls
  the function pointer stored there with the data pointer stored there; \<open>Call f d\<close> is
  that call. On any other pointer the structure is not there to read.
\<close>

datatype native_call = Call native_fn void_ptr

fun call_gvl_call_function :: "void_ptr \<Rightarrow> native_call option" where
  "call_gvl_call_function (gvl_call_data_at f d) = Some (Call f d)"
| "call_gvl_call_function _ = None"

fun call_unblock_function :: "void_ptr \<Rightarrow> native_call option" where
  "call_unblock_function (unblock_function_data_at f d) = Some (Call f d)"
| "call_unblock_function _ = None"

definition rb_thread_call_without_gvl ::
  "'h env \<Rightarrow> native_fn \<Rightarrow> void_ptr \<Rightarrow> native_fn \<Rightarrow> void_ptr \<Rightarrow> (pv, 'h) cext" where
  "rb_thread_call_without_gvl E fn data1 unblock_function data2 =
     (let call_struct = gvl_call_data_at fn data1;
          unblock_struct = unblock_function_data_at unblock_function data2;
          wrapped_unblock_function =
            (if unblock_function = RUBY_UBF_IO then Managed (rb_tr_unwrap E (Qnil E))
             else FunPtr addr_call_unblock_function)
      in polyglot_invoke E RUBY_CEXT ''rb_thread_call_without_gvl''
           [FunPtr addr_call_gvl_call_function, VoidPtr call_struct,
            wrapped_unblock_function, VoidPtr unblock_struct])"

text \<open>
  Modelled from the spec: what the managed runtime can do with the arguments of a
  blocking-region invocation. A callback descriptor is "a pairing of a native function
  pointer and an opaque data pointer", which the runtime invokes "via a registered
  trampoline"; an argument that is not a native function pointer selects the runtime's
  own default and starts no native call. \<open>descriptors\<close> lists the pairings among the
  arguments; \<open>native_invoke\<close> is the call through the stored function pointer that
  running a pairing's trampoline makes.
\<close>

fun descriptors :: "pv list \<Rightarrow> (native_fn \<times> void_ptr) list" where
  "descriptors (FunPtr f # VoidPtr d # rest) = (f, d) # descriptors rest"
| "descriptors (a # rest) = descriptors rest"
| "descriptors [] = []"

fun native_invoke :: "native_fn \<times> void_ptr \<Rightarrow> native_call option" where
  "native_invoke (addr_call_gvl_call_function, d) = call_gvl_call_function d"
| "native_invoke (addr_call_unblock_function, d) = call_unblock_function d"
| "native_invoke (f, d) = None"

definition rb_iter_break_value :: "'h env \<Rightarrow> VALUE \<Rightarrow> (unit, 'h) cext" where
  "rb_iter_break_value E v =
     then_do (RUBY_CEXT_INVOKE_NO_WRAP E ''rb_iter_break_value'' [v])
       (\<lambda>_. rb_tr_error ''rb_iter_break_value should not return'')"

definition rb_iter_break :: "'h env \<Rightarrow> (unit, 'h) cext" where
  "rb_iter_break E = rb_iter_break_value E (Qnil E)"

section \<open>ivar.c\<close>

definition rb_obj_instance_variables :: "'h env \<Rightarrow> VALUE \<Rightarrow> (VALUE, 'h) cext" where
  "rb_obj_instance_variables E object = RUBY_CEXT_INVOKE E ''rb_obj_instance_variables'' [object]"

definition rb_iv_get :: "'h env \<Rightarrow> VALUE \<Rightarrow> string \<Rightarrow> (VALUE, 'h) cext" where
  "rb_iv_get E object name =
     then_do (extern (rb_str_new_cstr E name))
       (\<lambda>str. then_do (extern (rb_to_id E str))
          (\<lambda>name_id. RUBY_CEXT_INVOKE E ''rb_ivar_get'' [object, ID2SYM E name_id]))"

definition rb_iv_set :: "'h env \<Rightarrow> VALUE \<Rightarrow> string \<Rightarrow> VALUE \<Rightarrow> (VALUE, 'h) cext" where
  "rb_iv_set E object name val =
     then_do (extern (rb_str_new_cstr E name))
       (\<lambda>str. then_do (extern (rb_to_id E str))
          (\<lambda>name_id. then_do (RUBY_CEXT_INVOKE_NO_WRAP E ''rb_ivar_set'' [object, ID2SYM E name_id, val])
             (\<lambda>_. ret val)))"

definition rb_ivar_defined :: "'h env \<Rightarrow> VALUE \<Rightarrow> ID \<Rightarrow> (VALUE, 'h) cext" where
  "rb_ivar_defined E object name = RUBY_CEXT_INVOKE E ''rb_ivar_defined'' [object, ID2SYM E name]"


definition rb_ivar_set :: "'h env \<Rightarrow> VALUE \<Rightarrow> ID \<Rightarrow> VALUE \<Rightarrow> (VALUE, 'h) cext" where
  "rb_ivar_set E object name val =
     then_do (RUBY_CEXT_INVOKE_NO_WRAP E ''rb_ivar_set'' [object, ID2SYM E name, val])
       (\<lambda>_. ret val)"


definition rb_ivar_foreach :: "'h env \<Rightarrow> VALUE \<Rightarrow> native_fn \<Rightarrow> nat \<Rightarrow> (unit, 'h) cext" where
  "rb_ivar_foreach E obj func arg = rb_tr_error ''rb_ivar_foreach not implemented''"

definition rb_attr_get :: "'h env \<Rightarrow> VALUE \<Rightarrow> ID \<Rightarrow> (VALUE, 'h) cext" where
  "rb_attr_get E object name = RUBY_CEXT_INVOKE E ''rb_ivar_lookup'' [object, ID2SYM E name, Qnil E]"

section \<open>printf.c\<close>

text \<open>
  The C library's \<^verbatim>\<open>vasprintf\<close>, for literal text and the directives \<^verbatim>\<open>%%\<close>,
  \<^verbatim>\<open>%s\<close>, \<^verbatim>\<open>%c\<close> and \<^verbatim>\<open>%d\<close> without flags, width or precision. A \<^verbatim>\<open>char *\<close> is
  read up to its first NUL (\<open>c_str\<close>). A directive whose argument is missing or of
  another type is undefined; the call fails (a negative return) when the output is longer
  than \<^verbatim>\<open>INT_MAX\<close> bytes. (On \<^verbatim>\<open>__APPLE__\<close> the source calls \<^verbatim>\<open>vasxprintf\<close> in
  the same place.)
\<close>

datatype printf_arg = PInt c_int | PStr string | PChar char

datatype printf_result = Printed string | Printf_Error | Printf_Undefined | Printf_Unmodelled

definition c_str :: "string \<Rightarrow> string" where
  "c_str bytes = takeWhile (\<lambda>c. c \<noteq> CHR 0x00) bytes"

function decimal :: "nat \<Rightarrow> string" where
  "decimal n = (if n < 10 then [''0123456789'' ! n] else decimal (n div 10) @ [''0123456789'' ! (n mod 10)])"
  by pat_completeness auto
termination
  by (relation "measure (\<lambda>n. n)") auto

definition format_int :: "int \<Rightarrow> string" where
  "format_int i = (if i < 0 then CHR ''-'' # decimal (nat (- i)) else decimal (nat i))"

fun prepend :: "string \<Rightarrow> printf_result \<Rightarrow> printf_result" where
  "prepend out (Printed rest) = Printed (out @ rest)"
| "prepend out r = r"

fun directives :: "string \<Rightarrow> printf_arg list \<Rightarrow> printf_result" where
  "directives [] args = Printed []"
| "directives [c] args = (if c = CHR ''%'' then Printf_Undefined else Printed [c])"
| "directives (c # d # fmt) args =
     (if c \<noteq> CHR ''%'' then prepend [c] (directives (d # fmt) args)
      else if d = CHR ''%'' then prepend ''%'' (directives fmt args)
      else if d = CHR ''s'' then
        (case args of
           PStr str # rest \<Rightarrow> prepend (c_str str) (directives fmt rest)
         | _ \<Rightarrow> Printf_Undefined)
      else if d = CHR ''c'' then
        (case args of
           PChar ch # rest \<Rightarrow> prepend [ch] (directives fmt rest)
         | _ \<Rightarrow> Printf_Undefined)
      else if d = CHR ''d'' then
        (case args of
           PInt i # rest \<Rightarrow> prepend (format_int (sint i)) (directives fmt rest)
         | _ \<Rightarrow> Printf_Undefined)
      else Printf_Unmodelled)"

definition vasprintf :: "string \<Rightarrow> printf_arg list \<Rightarrow> printf_result" where
  "vasprintf format args =
     (case directives (c_str format) args of
        Printed out \<Rightarrow> (if length out \<le> 2 ^ 31 - 1 then Printed out else Printf_Error)
      | r \<Rightarrow> r)"

definition rb_enc_vsprintf :: "'h env \<Rightarrow> rb_encoding \<Rightarrow> string \<Rightarrow> printf_arg list \<Rightarrow> (VALUE, 'h) cext" where
  "rb_enc_vsprintf E enc format args =
     (case vasprintf format args of
        Printed buffer \<Rightarrow> extern (rb_enc_str_new_cstr E (c_str buffer) enc)
      | Printf_Error \<Rightarrow> rb_tr_error ''vasprintf error''
      | Printf_Undefined \<Rightarrow> (\<lambda>s. (Inl Invalid_Read, s))
      | Printf_Unmodelled \<Rightarrow> (\<lambda>s. (Inl Outside_Model, s)))"

definition rb_enc_sprintf :: "'h env \<Rightarrow> rb_encoding \<Rightarrow> string \<Rightarrow> printf_arg list \<Rightarrow> (VALUE, 'h) cext" where
  "rb_enc_sprintf E enc format ap = rb_enc_vsprintf E enc format ap"

definition rb_vsprintf :: "'h env \<Rightarrow> string \<Rightarrow> printf_arg list \<Rightarrow> (VALUE, 'h) cext" where
  "rb_vsprintf E format args = rb_enc_vsprintf E (rb_ascii8bit_encoding E) format args"

definition rb_sprintf :: "'h env \<Rightarrow> string \<Rightarrow> printf_arg list \<Rightarrow> (VALUE, 'h) cext" where
  "rb_sprintf E format ap = rb_vsprintf E format ap"

definition rb_f_sprintf :: "'h env \<Rightarrow> c_int \<Rightarrow> VALUE list \<Rightarrow> (VALUE, 'h) cext" where
  "rb_f_sprintf E argc argv =
     then_do (rb_ary_new4 E (sint argc) argv) (\<lambda>ary. RUBY_CEXT_INVOKE E ''rb_f_sprintf'' [ary])"

section \<open>The handle layer\<close>

text \<open>
  Modelled from the spec: \<^verbatim>\<open>rb_tr_wrap\<close> and \<^verbatim>\<open>rb_tr_unwrap\<close> are function pointers the
  managed runtime fills in; their code is not among the sources. The spec's handle layer
  is a table owned by the bridge that maps small integer tokens to managed-reference
  slots, with validity checked on lookup: \<open>wrap\<close> gives a reference its slot (the one it
  has, or a new one at the end) and never fails; \<open>unwrap\<close> of a token that \<open>wrap\<close> did
  not issue is a fatal error.
\<close>

type_synonym handle_table = "ref list"

fun index_of :: "ref \<Rightarrow> ref list \<Rightarrow> nat option" where
  "index_of r [] = None"
| "index_of r (x # xs) = (if x = r then Some 0 else map_option Suc (index_of r xs))"

definition wrap :: "ref \<Rightarrow> handle_table \<Rightarrow> VALUE \<times> handle_table" where
  "wrap r tbl = (case index_of r tbl of Some i \<Rightarrow> (i, tbl) | None \<Rightarrow> (length tbl, tbl @ [r]))"

definition unwrap :: "VALUE \<Rightarrow> handle_table \<Rightarrow> error + ref" where
  "unwrap h tbl = (if h < length tbl then Inr (tbl ! h) else Inl (Fatal ''invalid handle''))"

text \<open>The table after wrapping the references \<open>rs\<close> one after the other.\<close>

fun wrap_all :: "ref list \<Rightarrow> handle_table \<Rightarrow> handle_table" where
  "wrap_all [] tbl = tbl"
| "wrap_all (r # rs) tbl = wrap_all rs (snd (wrap r tbl))"

section \<open>A runtime to run the shim against\<close>

text \<open>
  A runtime that answers the invocations from a prepared list, one answer per invocation
  (an unknown operation is reported as an error once the list is used up), and keeps the
  strings and exceptions the constructors of the other C files are asked to build. Its
  handles are the positions of a fixed table of objects.
\<close>

record sample_host =
  answers :: "(ref + pv) list"
  strings :: "(string \<times> rb_encoding) list"

definition scripted :: "target \<Rightarrow> string \<Rightarrow> pv list \<Rightarrow> sample_host \<Rightarrow> (ref + pv) \<times> sample_host" where
  "scripted tgt name args h =
     (case answers h of
        [] \<Rightarrow> (Inl (RException ''NoMethodError'' name), h)
      | a # rest \<Rightarrow> (a, h\<lparr>answers := rest\<rparr>))"

definition sample_objects :: handle_table where
  "sample_objects =
     [RNil, RObject 1, RObject 2, RSymbol ''@count'', RSymbol ''each'', RObject 5,
      RException ''ArgumentError'' ''wrong number of arguments'', RObject 7]"

definition sample_wrap :: "pv \<Rightarrow> VALUE" where
  "sample_wrap p = (case p of Managed r \<Rightarrow> fst (wrap r sample_objects) | _ \<Rightarrow> length sample_objects)"

definition sample_unwrap :: "VALUE \<Rightarrow> ref" where
  "sample_unwrap h = (case unwrap h sample_objects of Inr r \<Rightarrow> r | Inl _ \<Rightarrow> RNil)"

definition sample_env :: "sample_host env" where
  "sample_env =
     \<lparr>invoke_host = scripted,
      rb_tr_wrap = sample_wrap,
      rb_tr_unwrap = sample_unwrap,
      Qnil = 0,
      rb_eArgError = 5,
      ID2SYM = (\<lambda>name. name),
      rb_intern = (\<lambda>name. if name = ''each'' then 4 else 3),
      rb_to_id = (\<lambda>str h. (Inr 3, h)),
      rb_str_new_cstr = (\<lambda>bytes h. (Inr (100 + length (strings h)), h\<lparr>strings := strings h @ [(bytes, 0)]\<rparr>)),
      rb_enc_str_new_cstr = (\<lambda>bytes enc h. (Inr (100 + length (strings h)), h\<lparr>strings := strings h @ [(bytes, enc)]\<rparr>)),
      rb_exc_new3 = (\<lambda>cls msg h. (Inr 6, h)),
      rb_ascii8bit_encoding = 1,
      ary_alloc = (\<lambda>capa h. (Inr 7, h))\<rparr>"

definition sample_state :: "(ref + pv) list \<Rightarrow> sample_host cext_state" where
  "sample_state script =
     \<lparr>host = \<lparr>answers = script, strings = []\<rparr>, calls = [], arrays = Map.empty\<rparr>"

text \<open>
  Modelled from the spec: a runtime for the method-call operations. A block is "a
  caller-supplied iteration callback (native-level closure or host-level proc) passed to
  a method call". The block of the calling context is part of the runtime's state
  (\<open>RNil\<close>: none is active), and \<^verbatim>\<open>rb_block_proc\<close> answers it. The operation
  \<^verbatim>\<open>rb_funcall_with_block\<close> is the "call with an explicit proc": the method is called
  with the proc it is handed. The operation \<^verbatim>\<open>rb_block_call\<close> is the generic
  block-call path, "call and let the bridge resolve the currently active block": the
  method is called with the block of the calling context when one is active, and with
  the native callback and its data otherwise. \<^verbatim>\<open>rb_funcallv\<close> passes no block. What a
  method does with its receiver, arguments and block is the parameter \<open>body\<close>; the
  runtime keeps the record of the method calls it made.
\<close>

datatype block = HostProc ref | NativeCallback native_fn void_ptr | NoBlock

datatype method_call = MethodCall ref ref ref block

record block_host =
  active_block :: ref
  invoked :: "method_call list"

definition call_method :: "(method_call \<Rightarrow> ref + ref) \<Rightarrow> method_call \<Rightarrow> block_host \<Rightarrow> (ref + pv) \<times> block_host" where
  "call_method body c h =
     (case body c of
        Inl e \<Rightarrow> (Inl e, h\<lparr>invoked := invoked h @ [c]\<rparr>)
      | Inr r \<Rightarrow> (Inr (Managed r), h\<lparr>invoked := invoked h @ [c]\<rparr>))"

definition resolve_block :: "block_host \<Rightarrow> native_fn \<Rightarrow> void_ptr \<Rightarrow> block" where
  "resolve_block h f d =
     (if active_block h = RNil then NativeCallback f d else HostProc (active_block h))"

definition block_runtime ::
  "(method_call \<Rightarrow> ref + ref) \<Rightarrow> target \<Rightarrow> string \<Rightarrow> pv list \<Rightarrow> block_host \<Rightarrow> (ref + pv) \<times> block_host" where
  "block_runtime body tgt name args h =
     (if tgt = RUBY_CEXT \<and> name = ''rb_block_proc'' \<and> args = [] then
        (Inr (Managed (active_block h)), h)
      else if tgt = RUBY_CEXT \<and> name = ''rb_funcall_with_block'' then
        (case args of
           [Managed recv, Managed m, Managed margs, Managed p] \<Rightarrow>
             call_method body (MethodCall recv m margs (if p = RNil then NoBlock else HostProc p)) h
         | _ \<Rightarrow> (Inl (RException ''ArgumentError'' name), h))
      else if tgt = RUBY_CEXT \<and> name = ''rb_block_call'' then
        (case args of
           [Managed recv, Managed m, Managed margs, FunPtr f, VoidPtr d] \<Rightarrow>
             call_method body (MethodCall recv m margs (resolve_block h f d)) h
         | _ \<Rightarrow> (Inl (RException ''ArgumentError'' name), h))
      else if tgt = RUBY_CEXT \<and> name = ''rb_funcallv'' then
        (case args of
           [Managed recv, Managed m, Managed margs] \<Rightarrow>
             call_method body (MethodCall recv m margs NoBlock) h
         | _ \<Rightarrow> (Inl (RException ''ArgumentError'' name), h))
      else (Inl (RException ''NoMethodError'' name), h))"

text \<open>
  A method to run: it returns the proc of its block, the receiver when its block is a
  native callback, and raises when it has no block.
\<close>

fun sample_method :: "method_call \<Rightarrow> ref + ref" where
  "sample_method (MethodCall recv m margs (HostProc p)) = Inr p"
| "sample_method (MethodCall recv m margs (NativeCallback f d)) = Inr recv"
| "sample_method (MethodCall recv m margs NoBlock) = Inl (RException ''LocalJumpError'' ''no block given'')"

definition block_env :: "(method_call \<Rightarrow> ref + ref) \<Rightarrow> block_host env" where
  "block_env body =
     \<lparr>invoke_host = block_runtime body,
      rb_tr_wrap = sample_wrap,
      rb_tr_unwrap = sample_unwrap,
      Qnil = 0,
      rb_eArgError = 5,
      ID2SYM = (\<lambda>name. name),
      rb_intern = (\<lambda>name. if name = ''each'' then 4 else 3),
      rb_to_id = (\<lambda>str h. (Inr 3, h)),
      rb_str_new_cstr = (\<lambda>bytes h. (Inr 7, h)),
      rb_enc_str_new_cstr = (\<lambda>bytes enc h. (Inr 7, h)),
      rb_exc_new3 = (\<lambda>cls msg h. (Inr 6, h)),
      rb_ascii8bit_encoding = 1,
      ary_alloc = (\<lambda>capa h. (Inr 7, h))\<rparr>"

definition block_state :: "ref \<Rightarrow> block_host cext_state" where
  "block_state b = \<lparr>host = \<lparr>active_block = b, invoked = []\<rparr>, calls = [], arrays = Map.empty\<rparr>"

text \<open>
  What a call leaves to be observed from outside the bridge: its outcome (the handle
  returned or the error), the runtime's state, and the arrays built. The record of the
  bridge invocations is not part of it.
\<close>

definition observable :: "(error + 'a) \<times> 'h cext_state \<Rightarrow> (error + 'a) \<times> 'h \<times> (VALUE \<Rightarrow> VALUE list option)" where
  "observable r = (fst r, host (snd r), arrays (snd r))"

section \<open>The runtime's instance variables\<close>






section \<open>Properties\<close>

lemma then_do_Inr: "m s = (Inr x, s') \<Longrightarrow> then_do m f s = f x s'"
  by (simp add: then_do_def)

lemma then_do_Inl: "m s = (Inl e, s') \<Longrightarrow> then_do m f s = (Inl e, s')"
  by (simp add: then_do_def)

lemma polyglot_invoke_returns:
  "invoke_host E tgt name args (host s) = (Inr r, h') \<Longrightarrow>
   polyglot_invoke E tgt name args s =
     (Inr r, s\<lparr>host := h', calls := calls s @ [Invoke tgt name args]\<rparr>)"
  by (simp add: polyglot_invoke_def)

lemma polyglot_invoke_raises:
  "invoke_host E tgt name args (host s) = (Inl e, h') \<Longrightarrow>
   polyglot_invoke E tgt name args s =
     (Inl (Raised e), s\<lparr>host := h', calls := calls s @ [Invoke tgt name args]\<rparr>)"
  by (simp add: polyglot_invoke_def)

lemma polyglot_invoke_calls:
  "calls (snd (polyglot_invoke E tgt name args s)) = calls s @ [Invoke tgt name args]"
  by (simp add: polyglot_invoke_def split: prod.splits sum.splits)

lemma RUBY_CEXT_INVOKE_NO_WRAP_returns:
  "invoke_host E RUBY_CEXT name (unwrap_args E vs) (host s) = (Inr r, h') \<Longrightarrow>
   RUBY_CEXT_INVOKE_NO_WRAP E name vs s =
     (Inr r, s\<lparr>host := h', calls := calls s @ [Invoke RUBY_CEXT name (unwrap_args E vs)]\<rparr>)"
  by (simp add: RUBY_CEXT_INVOKE_NO_WRAP_def polyglot_invoke_returns)

lemma RUBY_CEXT_INVOKE_NO_WRAP_raises:
  "invoke_host E RUBY_CEXT name (unwrap_args E vs) (host s) = (Inl e, h') \<Longrightarrow>
   RUBY_CEXT_INVOKE_NO_WRAP E name vs s =
     (Inl (Raised e), s\<lparr>host := h', calls := calls s @ [Invoke RUBY_CEXT name (unwrap_args E vs)]\<rparr>)"
  by (simp add: RUBY_CEXT_INVOKE_NO_WRAP_def polyglot_invoke_raises)

lemma RUBY_CEXT_INVOKE_calls:
  "calls (snd (RUBY_CEXT_INVOKE E name vs s)) = calls s @ [Invoke RUBY_CEXT name (unwrap_args E vs)]"
  by (simp add: RUBY_CEXT_INVOKE_def RUBY_CEXT_INVOKE_NO_WRAP_def then_do_def ret_def
      polyglot_invoke_def split: prod.splits sum.splits)

lemma RUBY_CEXT_INVOKE_raises:
  "invoke_host E RUBY_CEXT name (unwrap_args E vs) (host s) = (Inl e, h') \<Longrightarrow>
   fst (RUBY_CEXT_INVOKE E name vs s) = Inl (Raised e)"
  by (simp add: RUBY_CEXT_INVOKE_def then_do_def RUBY_CEXT_INVOKE_NO_WRAP_raises)

lemma RUBY_INVOKE_calls:
  "calls (snd (RUBY_INVOKE E recv name vs s)) =
     calls s @ [Invoke (Receiver (rb_tr_unwrap E recv)) name (unwrap_args E vs)]"
  by (simp add: RUBY_INVOKE_def then_do_def ret_def polyglot_invoke_def
      split: prod.splits sum.splits)

lemma extern_returns:
  "f (host s) = (Inr x, h') \<Longrightarrow> extern f s = (Inr x, s\<lparr>host := h'\<rparr>)"
  by (simp add: extern_def)

lemma rb_block_given_p_calls:
  "rb_block_given_p E s = (r, s1) \<Longrightarrow> calls s1 = calls s @ [Invoke RUBY_CEXT ''rb_block_proc'' []]"
  using RUBY_CEXT_INVOKE_calls [of E "''rb_block_proc''" "[]" s]
  by (auto simp: rb_block_given_p_def rb_block_proc_def then_do_def ret_def unwrap_args_def
      split: prod.splits sum.splits)

text \<open>The definitions a run against the sample runtime unfolds.\<close>

lemmas sample_defs =
  sample_env_def sample_state_def scripted_def sample_wrap_def sample_unwrap_def
  sample_objects_def wrap_def unwrap_def

lemmas invoke_defs =
  RUBY_CEXT_INVOKE_def RUBY_CEXT_INVOKE_NO_WRAP_def RUBY_INVOKE_def polyglot_invoke_def
  then_do_def ret_def extern_def unwrap_args_def

subsection \<open>Block and iteration forwarders without a block\<close>

text \<open>
  Claim C1 says that each of \<^verbatim>\<open>rb_yield\<close>, \<^verbatim>\<open>rb_yield_splat\<close>, \<^verbatim>\<open>rb_each\<close> and
  \<^verbatim>\<open>rb_block_call\<close>, called while \<^verbatim>\<open>rb_block_given_p()\<close> is false, goes to the no-block
  bridge operation and never attempts the underlying call. It fails for \<^verbatim>\<open>rb_each\<close>
  and \<^verbatim>\<open>rb_block_call\<close>: with no block (the runtime answers nil to \<^verbatim>\<open>rb_block_proc\<close>),
  \<^verbatim>\<open>rb_each\<close> invokes \<^verbatim>\<open>each\<close> on the receiver and returns its result, and
  \<^verbatim>\<open>rb_block_call\<close> issues \<^verbatim>\<open>rb_funcallv\<close> (callback \<^verbatim>\<open>NULL\<close>) or the
  \<^verbatim>\<open>rb_block_call\<close> operation (callback given); \<^verbatim>\<open>yield_no_block\<close> is not invoked.
\<close>

theorem rb_each_without_block_counterexample:
  "rb_block_given_p sample_env (sample_state [Inr (Managed RNil), Inr (Managed (RObject 5))]) =
     (Inr False,
      \<lparr>host = \<lparr>answers = [Inr (Managed (RObject 5))], strings = []\<rparr>,
       calls = [Invoke RUBY_CEXT ''rb_block_proc'' []], arrays = Map.empty\<rparr>)
   \<and> rb_each sample_env 1 (sample_state [Inr (Managed RNil), Inr (Managed (RObject 5))]) =
     (Inr 5,
      \<lparr>host = \<lparr>answers = [], strings = []\<rparr>,
       calls = [Invoke RUBY_CEXT ''rb_block_proc'' [], Invoke (Receiver (RObject 1)) ''each'' []],
       arrays = Map.empty\<rparr>)
   \<and> fst (rb_block_call sample_env 1 4 1 [2] NULL 0
            (sample_state [Inr (Managed RNil), Inr (Managed (RObject 5))])) = Inr 5
   \<and> calls (snd (rb_block_call sample_env 1 4 1 [2] NULL 0
            (sample_state [Inr (Managed RNil), Inr (Managed (RObject 5))]))) =
       [Invoke RUBY_CEXT ''rb_block_proc'' [],
        Invoke RUBY_CEXT ''rb_funcallv'' [Managed (RObject 1), Managed (RSymbol ''each''), Managed (RObject 7)]]
   \<and> fst (rb_block_call sample_env 1 4 1 [2] (extension_fn 9) 0
            (sample_state [Inr (Managed RNil), Inr (Managed (RObject 5))])) = Inr 5
   \<and> calls (snd (rb_block_call sample_env 1 4 1 [2] (extension_fn 9) 0
            (sample_state [Inr (Managed RNil), Inr (Managed (RObject 5))]))) =
       [Invoke RUBY_CEXT ''rb_block_proc'' [],
        Invoke RUBY_CEXT ''rb_block_call''
          [Managed (RObject 1), Managed (RSymbol ''each''), Managed (RObject 7),
           FunPtr (extension_fn 9), VoidPtr (Addr 0)]]"
  by (simp add: rb_each_def rb_block_call_def generic_block_call_def rb_funcallv_def
      rb_block_given_p_def rb_block_proc_def rb_ary_new4_def rb_ary_new_capa_def NIL_P_def
      invoke_defs sample_defs)

text \<open>
  Claim C1, amended. When \<^verbatim>\<open>rb_block_given_p()\<close> is false (it leaves the state \<open>s1\<close>,
  with its one query \<^verbatim>\<open>rb_block_proc\<close> recorded), \<^verbatim>\<open>rb_yield\<close> and \<^verbatim>\<open>rb_yield_splat\<close>
  do exactly what the no-block bridge operation \<^verbatim>\<open>yield_no_block\<close>, invoked without
  arguments, does: it is their only further invocation, the yield operation is never
  invoked, and an exception the runtime raises for it leaves the call. In the same
  situation \<^verbatim>\<open>rb_each\<close> invokes \<^verbatim>\<open>each\<close> on the receiver, without a block, and
  \<^verbatim>\<open>rb_block_call\<close> calls the method through \<^verbatim>\<open>rb_funcallv\<close> when the callback is
  \<^verbatim>\<open>NULL\<close> and through the bridge operation \<^verbatim>\<open>rb_block_call\<close>, with the callback and
  its data, otherwise.
\<close>

theorem no_block_routing:
  assumes "rb_block_given_p E s = (Inr False, s1)"
  shows "calls s1 = calls s @ [Invoke RUBY_CEXT ''rb_block_proc'' []]
       \<and> rb_yield E v s = RUBY_CEXT_INVOKE E ''yield_no_block'' [] s1
       \<and> rb_yield_splat E vals s = RUBY_CEXT_INVOKE E ''yield_no_block'' [] s1
       \<and> calls (snd (rb_yield E v s)) =
           calls s @ [Invoke RUBY_CEXT ''rb_block_proc'' [], Invoke RUBY_CEXT ''yield_no_block'' []]
       \<and> calls (snd (rb_yield_splat E vals s)) =
           calls s @ [Invoke RUBY_CEXT ''rb_block_proc'' [], Invoke RUBY_CEXT ''yield_no_block'' []]
       \<and> (invoke_host E RUBY_CEXT ''yield_no_block'' [] (host s1) = (Inl e, h2) \<longrightarrow>
            fst (rb_yield E v s) = Inl (Raised e) \<and> fst (rb_yield_splat E vals s) = Inl (Raised e))
       \<and> rb_each E array s = RUBY_INVOKE E array ''each'' [] s1
       \<and> calls (snd (rb_each E array s)) =
           calls s @ [Invoke RUBY_CEXT ''rb_block_proc'' [],
                      Invoke (Receiver (rb_tr_unwrap E array)) ''each'' []]
       \<and> rb_block_call E object name args_count args block_call_func data s =
           (if block_call_func = NULL then rb_funcallv E object name args_count args s1
            else generic_block_call E object name args_count args block_call_func data s1)"
proof -
  have c1: "calls s1 = calls s @ [Invoke RUBY_CEXT ''rb_block_proc'' []]"
    using assms by (rule rb_block_given_p_calls)
  have y: "rb_yield E v s = RUBY_CEXT_INVOKE E ''yield_no_block'' [] s1"
    using assms by (simp add: rb_yield_def then_do_def)
  have ys: "rb_yield_splat E vals s = RUBY_CEXT_INVOKE E ''yield_no_block'' [] s1"
    using assms by (simp add: rb_yield_splat_def then_do_def)
  have cy: "calls (snd (rb_yield E v s)) =
      calls s @ [Invoke RUBY_CEXT ''rb_block_proc'' [], Invoke RUBY_CEXT ''yield_no_block'' []]"
    by (simp add: y RUBY_CEXT_INVOKE_calls unwrap_args_def c1)
  have cys: "calls (snd (rb_yield_splat E vals s)) =
      calls s @ [Invoke RUBY_CEXT ''rb_block_proc'' [], Invoke RUBY_CEXT ''yield_no_block'' []]"
    by (simp add: ys RUBY_CEXT_INVOKE_calls unwrap_args_def c1)
  have r: "invoke_host E RUBY_CEXT ''yield_no_block'' [] (host s1) = (Inl e, h2) \<longrightarrow>
      fst (rb_yield E v s) = Inl (Raised e) \<and> fst (rb_yield_splat E vals s) = Inl (Raised e)"
    using RUBY_CEXT_INVOKE_raises [of E "''yield_no_block''" "[]" s1 e h2]
    by (simp add: y ys unwrap_args_def)
  have e: "rb_each E array s = RUBY_INVOKE E array ''each'' [] s1"
    using assms by (simp add: rb_each_def then_do_def)
  have ce: "calls (snd (rb_each E array s)) =
      calls s @ [Invoke RUBY_CEXT ''rb_block_proc'' [],
                 Invoke (Receiver (rb_tr_unwrap E array)) ''each'' []]"
    by (simp add: e RUBY_INVOKE_calls unwrap_args_def c1)
  have b: "rb_block_call E object name args_count args block_call_func data s =
           (if block_call_func = NULL then rb_funcallv E object name args_count args s1
            else generic_block_call E object name args_count args block_call_func data s1)"
    using assms by (simp add: rb_block_call_def then_do_def)
  show ?thesis
    using c1 y ys cy cys r e ce b by (intro conjI)
qed

theorem no_block_routing_witness:
  "rb_block_given_p sample_env
       (sample_state [Inr (Managed RNil), Inl (RException ''LocalJumpError'' ''no block given (yield)'')]) =
     (Inr False,
      \<lparr>host = \<lparr>answers = [Inl (RException ''LocalJumpError'' ''no block given (yield)'')], strings = []\<rparr>,
       calls = [Invoke RUBY_CEXT ''rb_block_proc'' []], arrays = Map.empty\<rparr>)
   \<and> fst (rb_yield sample_env 1
       (sample_state [Inr (Managed RNil), Inl (RException ''LocalJumpError'' ''no block given (yield)'')])) =
     Inl (Raised (RException ''LocalJumpError'' ''no block given (yield)''))
   \<and> calls (snd (rb_yield sample_env 1
       (sample_state [Inr (Managed RNil), Inl (RException ''LocalJumpError'' ''no block given (yield)'')]))) =
     [Invoke RUBY_CEXT ''rb_block_proc'' [], Invoke RUBY_CEXT ''yield_no_block'' []]"
proof -
  let ?s = "sample_state [Inr (Managed RNil), Inl (RException ''LocalJumpError'' ''no block given (yield)'')]"
  let ?s1 = "\<lparr>host = \<lparr>answers = [Inl (RException ''LocalJumpError'' ''no block given (yield)'')], strings = []\<rparr>,
       calls = [Invoke RUBY_CEXT ''rb_block_proc'' []], arrays = Map.empty\<rparr>"
  have h: "rb_block_given_p sample_env ?s = (Inr False, ?s1)"
    by (simp add: rb_block_given_p_def rb_block_proc_def NIL_P_def invoke_defs sample_defs)
  have a: "invoke_host sample_env RUBY_CEXT ''yield_no_block'' [] (host ?s1) =
      (Inl (RException ''LocalJumpError'' ''no block given (yield)''), \<lparr>answers = [], strings = []\<rparr>)"
    by (simp add: sample_defs)
  note t = no_block_routing [OF h, where v = 1 and vals = 1
      and e = "RException ''LocalJumpError'' ''no block given (yield)''"
      and ?h2.0 = "\<lparr>answers = [], strings = []\<rparr>"]
  have raised: "fst (rb_yield sample_env 1 ?s) =
      Inl (Raised (RException ''LocalJumpError'' ''no block given (yield)''))"
    using t [THEN conjunct2, THEN conjunct2, THEN conjunct2, THEN conjunct2, THEN conjunct2,
        THEN conjunct1] a
    by blast
  have "calls (snd (rb_yield sample_env 1 ?s)) =
      calls ?s @ [Invoke RUBY_CEXT ''rb_block_proc'' [], Invoke RUBY_CEXT ''yield_no_block'' []]"
    by (rule t [THEN conjunct2, THEN conjunct2, THEN conjunct2, THEN conjunct1])
  then have trace: "calls (snd (rb_yield sample_env 1 ?s)) =
      [Invoke RUBY_CEXT ''rb_block_proc'' [], Invoke RUBY_CEXT ''yield_no_block'' []]"
    by (simp add: sample_state_def)
  show ?thesis
    using h raised trace by (intro conjI)
qed

subsection \<open>The call with a block\<close>

lemmas block_defs =
  block_env_def block_state_def block_runtime_def call_method_def resolve_block_def
  sample_wrap_def sample_unwrap_def sample_objects_def wrap_def unwrap_def

text \<open>With an active block, \<^verbatim>\<open>rb_block_call\<close> takes its first branch.\<close>

lemma rb_block_call_explicit:
  "rb_block_given_p E s = (Inr True, s1) \<Longrightarrow>
   rb_block_call E object name args_count args block_call_func data s =
     then_do (rb_block_proc E) (\<lambda>p. rb_funcall_with_block E object name args_count args p) s1"
  by (simp add: rb_block_call_def then_do_def)

text \<open>
  Against the runtime of the spec, the block query answers the block of the calling
  context and changes nothing but the record of invocations.
\<close>

lemma block_runtime_block_proc:
  "invoke_host E = block_runtime body \<Longrightarrow>
   rb_block_proc E s =
     (Inr (rb_tr_wrap E (Managed (active_block (host s)))),
      s\<lparr>calls := calls s @ [Invoke RUBY_CEXT ''rb_block_proc'' []]\<rparr>)"
  by (simp add: rb_block_proc_def invoke_defs block_runtime_def)

lemma block_runtime_given:
  assumes "invoke_host E = block_runtime body"
    and "rb_block_given_p E s = (Inr True, s1)"
    and "rb_tr_wrap E (Managed RNil) = Qnil E"
  shows "s1 = s\<lparr>calls := calls s @ [Invoke RUBY_CEXT ''rb_block_proc'' []]\<rparr>"
    and "active_block (host s) \<noteq> RNil"
  using assms
  by (auto simp: rb_block_given_p_def block_runtime_block_proc then_do_def ret_def NIL_P_def)

text \<open>The outcome of the two operations, by what the runtime of the spec answers.\<close>

lemma rb_funcall_with_block_observable:
  assumes "invoke_host E = block_runtime body"
    and "rb_tr_unwrap E p = b" and "b \<noteq> RNil"
  shows "observable (rb_funcall_with_block E recv mid argc argv p s) =
     (case rb_ary_new4 E (sint argc) argv s of
        (Inl e, t) \<Rightarrow> (Inl e, host t, arrays t)
      | (Inr ary, t) \<Rightarrow>
          (case call_method body
                  (MethodCall (rb_tr_unwrap E recv) (rb_tr_unwrap E (ID2SYM E mid))
                     (rb_tr_unwrap E ary) (HostProc b)) (host t) of
             (Inl e, h') \<Rightarrow> (Inl (Raised e), h', arrays t)
           | (Inr r, h') \<Rightarrow> (Inr (rb_tr_wrap E r), h', arrays t)))"
  using assms
  by (simp add: observable_def rb_funcall_with_block_def invoke_defs block_runtime_def
      split: prod.splits sum.splits)

lemma generic_block_call_observable:
  assumes "invoke_host E = block_runtime body"
  shows "observable (generic_block_call E recv mid argc argv f d s) =
     (case rb_ary_new4 E (sint argc) argv s of
        (Inl e, t) \<Rightarrow> (Inl e, host t, arrays t)
      | (Inr ary, t) \<Rightarrow>
          (case call_method body
                  (MethodCall (rb_tr_unwrap E recv) (rb_tr_unwrap E (ID2SYM E mid))
                     (rb_tr_unwrap E ary) (resolve_block (host t) f (Addr d))) (host t) of
             (Inl e, h') \<Rightarrow> (Inl (Raised e), h', arrays t)
           | (Inr r, h') \<Rightarrow> (Inr (rb_tr_wrap E r), h', arrays t)))"
  using assms
  by (simp add: observable_def generic_block_call_def invoke_defs block_runtime_def
      split: prod.splits sum.splits)

lemma rb_ary_new4_host:
  assumes "\<And>n h r h'. ary_alloc E n h = (r, h') \<Longrightarrow> active_block h' = active_block h"
  shows "active_block (host (snd (rb_ary_new4 E n elts s))) = active_block (host s)"
proof (cases "ary_alloc E n (host s)")
  case (Pair r h')
  then have "active_block h' = active_block (host s)"
    by (rule assms)
  with Pair show ?thesis
    by (simp add: rb_ary_new4_def rb_ary_new_capa_def invoke_defs split: sum.splits)
qed

lemma rb_ary_new4_log:
  "observable (rb_ary_new4 E n elts (s\<lparr>calls := c\<rparr>)) = observable (rb_ary_new4 E n elts s)"
  by (simp add: observable_def rb_ary_new4_def rb_ary_new_capa_def invoke_defs
      split: prod.splits sum.splits)

lemma rb_funcall_with_block_log:
  "observable (rb_funcall_with_block E recv mid argc argv p (s\<lparr>calls := c\<rparr>)) =
   observable (rb_funcall_with_block E recv mid argc argv p s)"
  by (simp add: observable_def rb_funcall_with_block_def rb_ary_new4_def rb_ary_new_capa_def
      invoke_defs split: prod.splits sum.splits)

text \<open>
  Claim C3. For \<^verbatim>\<open>rb_block_call\<close> with an active block in the calling context
  (\<^verbatim>\<open>rb_block_given_p()\<close> is true), calling via the explicit block proc, which is what
  \<^verbatim>\<open>rb_block_call\<close> does and what the direct call of \<^verbatim>\<open>rb_funcall_with_block\<close> with
  the handle of the active block does, produces a result identical to the generic
  block-call path, where the bridge resolves the currently active block: the same outcome
  (handle returned or error), the same state of the runtime with the same method calls
  made, the same arrays, for every receiver, method name, argument list, callback and
  data, and whatever the methods do. The runtime is the one modelled from the spec; the
  handle of nil is \<^verbatim>\<open>Qnil\<close>, the handle of the active block unwraps to it, and the
  allocation of the argument array leaves the block of the calling context.
\<close>

theorem explicit_proc_agrees_with_generic_path:
  assumes runtime: "invoke_host E = block_runtime body"
    and given: "rb_block_given_p E s = (Inr True, s1)"
    and nil: "rb_tr_wrap E (Managed RNil) = Qnil E"
    and handle: "rb_tr_unwrap E (rb_tr_wrap E (Managed (active_block (host s)))) = active_block (host s)"
    and alloc: "\<And>n h r h'. ary_alloc E n h = (r, h') \<Longrightarrow> active_block h' = active_block h"
  shows "rb_block_call E object name args_count args block_call_func data s =
           then_do (rb_block_proc E) (\<lambda>p. rb_funcall_with_block E object name args_count args p) s1
       \<and> observable (rb_block_call E object name args_count args block_call_func data s) =
           observable (generic_block_call E object name args_count args block_call_func data s)
       \<and> observable (rb_funcall_with_block E object name args_count args
                       (rb_tr_wrap E (Managed (active_block (host s)))) s) =
           observable (generic_block_call E object name args_count args block_call_func data s)"
proof -
  let ?b = "active_block (host s)"
  let ?p = "rb_tr_wrap E (Managed ?b)"
  have s1: "s1 = s\<lparr>calls := calls s @ [Invoke RUBY_CEXT ''rb_block_proc'' []]\<rparr>"
    and b: "?b \<noteq> RNil"
    using runtime given nil by (rule block_runtime_given)+
  have 1: "rb_block_call E object name args_count args block_call_func data s =
           then_do (rb_block_proc E) (\<lambda>p. rb_funcall_with_block E object name args_count args p) s1"
    using given by (rule rb_block_call_explicit)
  have resolved: "resolve_block (host (snd (rb_ary_new4 E (sint args_count) args s))) block_call_func (Addr data) =
      HostProc ?b"
    using b by (simp add: resolve_block_def rb_ary_new4_host [OF alloc])
  have 3: "observable (rb_funcall_with_block E object name args_count args ?p s) =
           observable (generic_block_call E object name args_count args block_call_func data s)"
  proof (cases "rb_ary_new4 E (sint args_count) args s")
    case (Pair r t)
    with resolved have "resolve_block (host t) block_call_func (Addr data) = HostProc ?b"
      by simp
    with Pair show ?thesis
      by (cases r)
        (simp_all add: rb_funcall_with_block_observable [OF runtime handle b]
          generic_block_call_observable [OF runtime])
  qed
  have "rb_block_call E object name args_count args block_call_func data s =
        rb_funcall_with_block E object name args_count args ?p
          (s1\<lparr>calls := calls s1 @ [Invoke RUBY_CEXT ''rb_block_proc'' []]\<rparr>)"
    by (simp add: 1 then_do_def block_runtime_block_proc [OF runtime] s1)
  then have "observable (rb_block_call E object name args_count args block_call_func data s) =
        observable (rb_funcall_with_block E object name args_count args ?p s)"
    by (simp add: s1 rb_funcall_with_block_log)
  with 3 have 2: "observable (rb_block_call E object name args_count args block_call_func data s) =
           observable (generic_block_call E object name args_count args block_call_func data s)"
    by simp
  show ?thesis
    using 1 2 3 by (intro conjI)
qed

theorem explicit_proc_agrees_with_generic_path_witness:
  "rb_block_given_p (block_env sample_method) (block_state (RObject 2)) =
     (Inr True, \<lparr>host = \<lparr>active_block = RObject 2, invoked = []\<rparr>,
                 calls = [Invoke RUBY_CEXT ''rb_block_proc'' []], arrays = Map.empty\<rparr>)
   \<and> observable (rb_block_call (block_env sample_method) 1 4 0 [] (extension_fn 9) 0 (block_state (RObject 2))) =
       observable (generic_block_call (block_env sample_method) 1 4 0 [] (extension_fn 9) 0 (block_state (RObject 2)))
   \<and> observable (generic_block_call (block_env sample_method) 1 4 0 [] (extension_fn 9) 0 (block_state (RObject 2))) =
       (Inr 2,
        \<lparr>active_block = RObject 2,
         invoked = [MethodCall (RObject 1) (RSymbol ''each'') (RObject 7) (HostProc (RObject 2))]\<rparr>,
        Map.empty(7 \<mapsto> []))"
proof -
  let ?E = "block_env sample_method"
  let ?s = "block_state (RObject 2)"
  let ?s1 = "\<lparr>host = \<lparr>active_block = RObject 2, invoked = []\<rparr>,
              calls = [Invoke RUBY_CEXT ''rb_block_proc'' []], arrays = Map.empty\<rparr>"
  have runtime: "invoke_host ?E = block_runtime sample_method"
    by (simp add: block_env_def)
  have given: "rb_block_given_p ?E ?s = (Inr True, ?s1)"
    by (simp add: rb_block_given_p_def rb_block_proc_def NIL_P_def invoke_defs block_defs)
  have nil: "rb_tr_wrap ?E (Managed RNil) = Qnil ?E"
    by (simp add: block_defs)
  have handle: "rb_tr_unwrap ?E (rb_tr_wrap ?E (Managed (active_block (host ?s)))) = active_block (host ?s)"
    by (simp add: block_defs)
  have alloc: "\<And>n h r h'. ary_alloc ?E n h = (r, h') \<Longrightarrow> active_block h' = active_block h"
    by (auto simp: block_env_def)
  note inst = explicit_proc_agrees_with_generic_path [OF runtime given nil handle alloc,
      where object = 1 and name = 4 and args_count = 0 and args = "[]"
        and block_call_func = "extension_fn 9" and data = 0]
  have 2: "observable (rb_block_call ?E 1 4 0 [] (extension_fn 9) 0 ?s) =
      observable (generic_block_call ?E 1 4 0 [] (extension_fn 9) 0 ?s)"
    by (rule inst [THEN conjunct2, THEN conjunct1])
  have 3: "observable (generic_block_call ?E 1 4 0 [] (extension_fn 9) 0 ?s) =
       (Inr 2,
        \<lparr>active_block = RObject 2,
         invoked = [MethodCall (RObject 1) (RSymbol ''each'') (RObject 7) (HostProc (RObject 2))]\<rparr>,
        Map.empty(7 \<mapsto> []))"
    by (simp add: observable_def generic_block_call_def rb_ary_new4_def rb_ary_new_capa_def
        invoke_defs block_defs)
  show ?thesis
    using given 2 3 by (intro conjI)
qed

subsection \<open>The handle layer\<close>

lemma index_of_Some: "index_of r tbl = Some i \<Longrightarrow> i < length tbl \<and> tbl ! i = r"
  by (induction tbl arbitrary: i) (auto split: if_splits)

lemma index_of_None: "index_of r tbl = None \<Longrightarrow> r \<notin> set tbl"
  by (induction tbl) (auto split: if_splits)

lemma index_of_nth: "distinct tbl \<Longrightarrow> i < length tbl \<Longrightarrow> index_of (tbl ! i) tbl = Some i"
proof (induction tbl arbitrary: i)
  case Nil
  then show ?case by simp
next
  case (Cons x xs)
  show ?case
  proof (cases i)
    case 0
    then show ?thesis by simp
  next
    case (Suc j)
    with Cons.prems have "xs ! j \<in> set xs" and "x \<notin> set xs" by auto
    then have "x \<noteq> xs ! j" by auto
    with Cons Suc show ?thesis by simp
  qed
qed

lemma unwrap_wrap: "unwrap (fst (wrap r tbl)) (snd (wrap r tbl)) = Inr r"
  by (auto simp: wrap_def unwrap_def split: option.splits dest: index_of_Some)

lemma distinct_wrap: "distinct tbl \<Longrightarrow> distinct (snd (wrap r tbl))"
  by (auto simp: wrap_def split: option.splits dest: index_of_None)

lemma distinct_wrap_all: "distinct tbl \<Longrightarrow> distinct (wrap_all rs tbl)"
  by (induction rs arbitrary: tbl) (simp_all add: distinct_wrap)

lemma wrap_unwrap: "distinct tbl \<Longrightarrow> unwrap h tbl = Inr r \<Longrightarrow> wrap r tbl = (h, tbl)"
  by (auto simp: wrap_def unwrap_def index_of_nth split: if_splits)

text \<open>
  Claim C2. \<open>wrap\<close> and \<open>unwrap\<close> are mutual inverses. In every table the bridge can
  have built (the empty table after any sequence \<open>rs\<close> of wraps): unwrapping the handle
  that \<open>wrap\<close> gives a reference \<open>r\<close> yields \<open>r\<close>; and a handle \<open>h\<close> that unwraps to a
  reference (the handles \<open>wrap\<close> has issued, and only they, do) is the handle \<open>wrap\<close>
  gives that reference again, the table unchanged.
\<close>

theorem wrap_unwrap_inverse:
  "unwrap (fst (wrap r (wrap_all rs []))) (snd (wrap r (wrap_all rs []))) = Inr r \<and>
   (unwrap h (wrap_all rs []) = Inr r' \<longrightarrow> wrap r' (wrap_all rs []) = (h, wrap_all rs []))"
  using unwrap_wrap [of r "wrap_all rs []"] wrap_unwrap [OF distinct_wrap_all [of "[]" rs], of h r']
  by simp

theorem wrap_unwrap_inverse_witness:
  "wrap_all [RNil, RObject 1, RNil, RSymbol ''a''] [] = [RNil, RObject 1, RSymbol ''a'']
   \<and> wrap (RObject 2) [RNil, RObject 1, RSymbol ''a''] = (3, [RNil, RObject 1, RSymbol ''a'', RObject 2])
   \<and> unwrap 3 [RNil, RObject 1, RSymbol ''a'', RObject 2] = Inr (RObject 2)
   \<and> unwrap 1 [RNil, RObject 1, RSymbol ''a''] = Inr (RObject 1)
   \<and> wrap (RObject 1) [RNil, RObject 1, RSymbol ''a''] = (1, [RNil, RObject 1, RSymbol ''a''])"
proof -
  have t: "wrap_all [RNil, RObject 1, RNil, RSymbol ''a''] [] = [RNil, RObject 1, RSymbol ''a'']"
    by (simp add: wrap_def)
  have w: "wrap (RObject 2) [RNil, RObject 1, RSymbol ''a''] = (3, [RNil, RObject 1, RSymbol ''a'', RObject 2])"
    by (simp add: wrap_def)
  have u: "unwrap 1 [RNil, RObject 1, RSymbol ''a''] = Inr (RObject 1)"
    by (simp add: unwrap_def)
  note inst = wrap_unwrap_inverse [of "RObject 2" "[RNil, RObject 1, RNil, RSymbol ''a'']" 1 "RObject 1"]
  have 1: "unwrap 3 [RNil, RObject 1, RSymbol ''a'', RObject 2] = Inr (RObject 2)"
    using inst [THEN conjunct1, unfolded t w] by simp
  have 2: "wrap (RObject 1) [RNil, RObject 1, RSymbol ''a''] = (1, [RNil, RObject 1, RSymbol ''a''])"
    using inst [THEN conjunct2, unfolded t] u by blast
  show ?thesis
    using t w 1 u 2 by (intro conjI)
qed

subsection \<open>The blocking region and the cancellation sentinel\<close>

text \<open>
  Claim C4. When the cancellation callback of \<^verbatim>\<open>rb_thread_call_without_gvl\<close> is the
  sentinel \<^verbatim>\<open>RUBY_UBF_IO\<close>, the third argument that crosses the bridge is the unwrapped
  \<^verbatim>\<open>Qnil\<close>, the runtime's marker for its own default, not a function pointer: the one
  invocation issued carries the trampoline \<^verbatim>\<open>call_gvl_call_function\<close> as its only
  callable (neither the sentinel nor \<^verbatim>\<open>call_unblock_function\<close>, the one function that
  calls through the stored cancellation pointer, is among the arguments), and the only call through a stored function pointer that the runtime can
  start from its arguments is the blocking function on its data. Neither the sentinel
  nor any cancellation function pointer is called. (With any other callback \<open>ubf\<close> the
  trampoline \<^verbatim>\<open>call_unblock_function\<close> is passed, and running it calls \<open>ubf\<close>.)
\<close>

theorem ubf_io_never_dereferenced:
  "rb_thread_call_without_gvl E fn data1 RUBY_UBF_IO data2 s =
     polyglot_invoke E RUBY_CEXT ''rb_thread_call_without_gvl''
       [FunPtr addr_call_gvl_call_function, VoidPtr (gvl_call_data_at fn data1),
        Managed (rb_tr_unwrap E (Qnil E)), VoidPtr (unblock_function_data_at RUBY_UBF_IO data2)] s
   \<and> calls (snd (rb_thread_call_without_gvl E fn data1 RUBY_UBF_IO data2 s)) =
       calls s @ [Invoke RUBY_CEXT ''rb_thread_call_without_gvl''
         [FunPtr addr_call_gvl_call_function, VoidPtr (gvl_call_data_at fn data1),
          Managed (rb_tr_unwrap E (Qnil E)), VoidPtr (unblock_function_data_at RUBY_UBF_IO data2)]]
   \<and> FunPtr RUBY_UBF_IO \<notin> set
         [FunPtr addr_call_gvl_call_function, VoidPtr (gvl_call_data_at fn data1),
          Managed (rb_tr_unwrap E (Qnil E)), VoidPtr (unblock_function_data_at RUBY_UBF_IO data2)]
   \<and> FunPtr addr_call_unblock_function \<notin> set
         [FunPtr addr_call_gvl_call_function, VoidPtr (gvl_call_data_at fn data1),
          Managed (rb_tr_unwrap E (Qnil E)), VoidPtr (unblock_function_data_at RUBY_UBF_IO data2)]
   \<and> map native_invoke (descriptors
         [FunPtr addr_call_gvl_call_function, VoidPtr (gvl_call_data_at fn data1),
          Managed (rb_tr_unwrap E (Qnil E)), VoidPtr (unblock_function_data_at RUBY_UBF_IO data2)])
       = [Some (Call fn data1)]
   \<and> (ubf \<noteq> RUBY_UBF_IO \<longrightarrow>
        calls (snd (rb_thread_call_without_gvl E fn data1 ubf data2 s)) =
          calls s @ [Invoke RUBY_CEXT ''rb_thread_call_without_gvl''
            [FunPtr addr_call_gvl_call_function, VoidPtr (gvl_call_data_at fn data1),
             FunPtr addr_call_unblock_function, VoidPtr (unblock_function_data_at ubf data2)]]
        \<and> map native_invoke (descriptors
            [FunPtr addr_call_gvl_call_function, VoidPtr (gvl_call_data_at fn data1),
             FunPtr addr_call_unblock_function, VoidPtr (unblock_function_data_at ubf data2)])
          = [Some (Call fn data1), Some (Call ubf data2)])"
  by (simp add: rb_thread_call_without_gvl_def polyglot_invoke_calls)

theorem ubf_io_never_dereferenced_witness:
  "rb_thread_call_without_gvl sample_env (extension_fn 3) (Addr 40) RUBY_UBF_IO (Addr 41)
       (sample_state [Inr (VoidPtr (Addr 42))]) =
     (Inr (VoidPtr (Addr 42)),
      \<lparr>host = \<lparr>answers = [], strings = []\<rparr>,
       calls = [Invoke RUBY_CEXT ''rb_thread_call_without_gvl''
         [FunPtr addr_call_gvl_call_function, VoidPtr (gvl_call_data_at (extension_fn 3) (Addr 40)),
          Managed RNil, VoidPtr (unblock_function_data_at RUBY_UBF_IO (Addr 41))]],
       arrays = Map.empty\<rparr>)
   \<and> extension_fn 8 \<noteq> RUBY_UBF_IO
   \<and> calls (snd (rb_thread_call_without_gvl sample_env (extension_fn 3) (Addr 40) (extension_fn 8) (Addr 41)
       (sample_state [Inr (VoidPtr (Addr 42))]))) =
       [Invoke RUBY_CEXT ''rb_thread_call_without_gvl''
         [FunPtr addr_call_gvl_call_function, VoidPtr (gvl_call_data_at (extension_fn 3) (Addr 40)),
          FunPtr addr_call_unblock_function, VoidPtr (unblock_function_data_at (extension_fn 8) (Addr 41))]]"
proof -
  let ?s = "sample_state [Inr (VoidPtr (Addr 42))]"
  note inst = ubf_io_never_dereferenced [of sample_env "extension_fn 3" "Addr 40" "Addr 41" ?s "extension_fn 8"]
  have 1: "rb_thread_call_without_gvl sample_env (extension_fn 3) (Addr 40) RUBY_UBF_IO (Addr 41) ?s =
     (Inr (VoidPtr (Addr 42)),
      \<lparr>host = \<lparr>answers = [], strings = []\<rparr>,
       calls = [Invoke RUBY_CEXT ''rb_thread_call_without_gvl''
         [FunPtr addr_call_gvl_call_function, VoidPtr (gvl_call_data_at (extension_fn 3) (Addr 40)),
          Managed RNil, VoidPtr (unblock_function_data_at RUBY_UBF_IO (Addr 41))]],
       arrays = Map.empty\<rparr>)"
    using inst [THEN conjunct1] by (simp add: polyglot_invoke_def sample_defs)
  have 2: "extension_fn 8 \<noteq> RUBY_UBF_IO" by simp
  have 3: "calls (snd (rb_thread_call_without_gvl sample_env (extension_fn 3) (Addr 40) (extension_fn 8) (Addr 41) ?s)) =
       [Invoke RUBY_CEXT ''rb_thread_call_without_gvl''
         [FunPtr addr_call_gvl_call_function, VoidPtr (gvl_call_data_at (extension_fn 3) (Addr 40)),
          FunPtr addr_call_unblock_function, VoidPtr (unblock_function_data_at (extension_fn 8) (Addr 41))]]"
    using inst [THEN conjunct2, THEN conjunct2, THEN conjunct2, THEN conjunct2, THEN conjunct2] 2
    by (simp add: sample_state_def)
  show ?thesis
    using 1 2 3 by (intro conjI)
qed

subsection \<open>The variadic yield helpers\<close>

lemma rb_ary_store_append:
  "arrays s ary = Some xs \<Longrightarrow>
   rb_ary_store E ary (int (length xs)) v s = (Inr (), s\<lparr>arrays := (arrays s)(ary \<mapsto> xs @ [v])\<rparr>)"
  by (simp add: rb_ary_store_def)

lemma state_arrays_same:
  "arrays s ary = Some xs \<Longrightarrow> s\<lparr>arrays := (arrays s)(ary \<mapsto> xs)\<rparr> = s"
  by (simp add: fun_upd_idem)

lemma rb_ary_new_capa_returns:
  "ary_alloc E n (host s) = (Inr ary, h1) \<Longrightarrow>
   rb_ary_new_capa E n s = (Inr ary, s\<lparr>host := h1, arrays := (arrays s)(ary \<mapsto> [])\<rparr>)"
  by (simp add: rb_ary_new_capa_def then_do_def extern_def)

text \<open>
  The loops' invariant: before the store at index \<open>i\<close> the array holds the first \<open>i\<close>
  arguments, in their order; the loops end with the first \<open>n\<close> in it.
\<close>

lemma rb_yield_values2_loop_fills:
  "arrays s vals = Some (take (nat (sint i)) argv) \<Longrightarrow> 0 \<le> sint i \<Longrightarrow> sint i \<le> sint n \<Longrightarrow>
   sint n \<le> int (length argv) \<Longrightarrow>
   rb_yield_values2_loop E vals argv i n s =
     (Inr (), s\<lparr>arrays := (arrays s)(vals \<mapsto> take (nat (sint n)) argv)\<rparr>)"
proof (induction E vals argv i n s rule: rb_yield_values2_loop.induct)
  case (1 E vals argv i n s)
  show ?case
  proof (cases "i <s n")
    case False
    with "1.prems" have "sint i = sint n" by (simp add: word_sless_alt)
    with "1.prems" False show ?thesis
      by (subst rb_yield_values2_loop.simps) (simp add: state_arrays_same)
  next
    case True
    then have lt: "sint i < sint n" by (simp add: word_sless_alt)
    have suc: "sint (i + 1) = sint i + 1" using True by (rule sint_succ)
    let ?v = "argv ! nat (sint i)"
    let ?s2 = "s\<lparr>arrays := (arrays s)(vals \<mapsto> take (nat (sint (i + 1))) argv)\<rparr>"
    have len: "int (length (take (nat (sint i)) argv)) = sint i"
      using "1.prems" lt by simp
    have rd: "c_array_read argv i s = (Inr ?v, s)"
      using "1.prems" lt by (simp add: c_array_read_def)
    have tk: "take (nat (sint i)) argv @ [?v] = take (nat (sint (i + 1))) argv"
      using "1.prems" lt by (simp add: suc nat_add_distrib take_Suc_conv_app_nth)
    have st: "rb_ary_store E vals (sint i) ?v s = (Inr (), ?s2)"
      using rb_ary_store_append [OF "1.prems"(1), of E ?v] len tk by simp
    have p1: "arrays ?s2 vals = Some (take (nat (sint (i + 1))) argv)" by simp
    have p2: "0 \<le> sint (i + 1)" using "1.prems" by (simp add: suc)
    have p3: "sint (i + 1) \<le> sint n" using lt by (simp add: suc)
    have "rb_yield_values2_loop E vals argv (i + 1) n ?s2 =
            (Inr (), ?s2\<lparr>arrays := (arrays ?s2)(vals \<mapsto> take (nat (sint n)) argv)\<rparr>)"
      by (rule "1.IH" [OF True rd [symmetric] refl st [symmetric] refl p1 p2 p3 "1.prems"(4)])
    then have ih: "rb_yield_values2_loop E vals argv (i + 1) n ?s2 =
            (Inr (), s\<lparr>arrays := (arrays s)(vals \<mapsto> take (nat (sint n)) argv)\<rparr>)"
      by simp
    show ?thesis
      by (subst rb_yield_values2_loop.simps) (simp add: True rd st ih)
  qed
qed

lemma rb_yield_values_loop_fills:
  "arrays s vals = Some (take (nat (sint i)) varargs) \<Longrightarrow> 0 \<le> sint i \<Longrightarrow> sint i \<le> sint n \<Longrightarrow>
   sint n \<le> int (length varargs) \<Longrightarrow>
   rb_yield_values_loop E vals (IntArg m # map ValueArg varargs) i n s =
     (Inr (), s\<lparr>arrays := (arrays s)(vals \<mapsto> take (nat (sint n)) varargs)\<rparr>)"
proof (induction E vals "IntArg m # map ValueArg varargs" i n s rule: rb_yield_values_loop.induct)
  case (1 E vals i n s)
  show ?case
  proof (cases "i <s n")
    case False
    with "1.prems" have "sint i = sint n" by (simp add: word_sless_alt)
    with "1.prems" False show ?thesis
      by (subst rb_yield_values_loop.simps) (simp add: state_arrays_same)
  next
    case True
    then have lt: "sint i < sint n" by (simp add: word_sless_alt)
    have suc: "sint (1 + i) = sint i + 1" using sint_succ [OF True] by (simp add: add.commute)
    let ?v = "varargs ! nat (sint i)"
    let ?s2 = "s\<lparr>arrays := (arrays s)(vals \<mapsto> take (nat (sint (i + 1))) varargs)\<rparr>"
    have len: "int (length (take (nat (sint i)) varargs)) = sint i"
      using "1.prems" lt by simp
    have "(IntArg m # map ValueArg varargs) ! nat (sint (1 + i)) = ValueArg ?v"
      using "1.prems" lt by (simp add: suc nat_add_distrib)
    then have rd: "polyglot_get_arg (IntArg m # map ValueArg varargs) (1 + i) s = (Inr (ValueArg ?v), s)"
      using "1.prems" lt by (simp add: polyglot_get_arg_def suc)
    have tk: "take (nat (sint i)) varargs @ [?v] = take (nat (sint (i + 1))) varargs"
      using "1.prems" lt by (simp add: sint_succ [OF True] nat_add_distrib take_Suc_conv_app_nth)
    have st: "rb_ary_store E vals (sint i) (as_VALUE (ValueArg ?v)) s = (Inr (), ?s2)"
      using rb_ary_store_append [OF "1.prems"(1), of E ?v] len tk by simp
    have p1: "arrays ?s2 vals = Some (take (nat (sint (i + 1))) varargs)" by simp
    have p2: "0 \<le> sint (i + 1)" using "1.prems" by (simp add: sint_succ [OF True])
    have p3: "sint (i + 1) \<le> sint n" using lt by (simp add: sint_succ [OF True])
    have "rb_yield_values_loop E vals (IntArg m # map ValueArg varargs) (i + 1) n ?s2 =
            (Inr (), ?s2\<lparr>arrays := (arrays ?s2)(vals \<mapsto> take (nat (sint n)) varargs)\<rparr>)"
      by (rule "1.hyps" [OF True rd [symmetric] refl st [symmetric] refl p1 p2 p3 "1.prems"(4)])
    then have ih: "rb_yield_values_loop E vals (IntArg m # map ValueArg varargs) (i + 1) n ?s2 =
            (Inr (), s\<lparr>arrays := (arrays s)(vals \<mapsto> take (nat (sint n)) varargs)\<rparr>)"
      by simp
    show ?thesis
      by (subst rb_yield_values_loop.simps) (simp add: True rd st [simplified] ih)
  qed
qed

text \<open>
  Claim C5. For every \<open>n \<ge> 0\<close> and arguments \<open>vs\<close> (at least \<open>n\<close> of them), once the
  array is allocated, \<^verbatim>\<open>rb_yield_values\<close> and \<^verbatim>\<open>rb_yield_values2\<close> do what
  \<^verbatim>\<open>rb_yield_splat\<close> does on that array, in a state where the array holds exactly the
  first \<open>n\<close> arguments in their order: \<open>n\<close> elements, element \<open>i\<close> being argument \<open>i\<close>;
  for \<open>n = 0\<close> the array is empty.
\<close>

theorem yield_values_pack_in_order:
  assumes "0 \<le> sint n" and "sint n \<le> int (length vs)"
    and "ary_alloc E (sint n) (host s) = (Inr ary, h1)"
  shows "rb_yield_values2 E n vs s =
           rb_yield_splat E ary (s\<lparr>host := h1, arrays := (arrays s)(ary \<mapsto> take (nat (sint n)) vs)\<rparr>)
       \<and> rb_yield_values E n vs s =
           rb_yield_splat E ary (s\<lparr>host := h1, arrays := (arrays s)(ary \<mapsto> take (nat (sint n)) vs)\<rparr>)
       \<and> length (take (nat (sint n)) vs) = nat (sint n)
       \<and> (\<forall>i < nat (sint n). take (nat (sint n)) vs ! i = vs ! i)
       \<and> (n = 0 \<longrightarrow> take (nat (sint n)) vs = [])"
proof -
  let ?s1 = "s\<lparr>host := h1, arrays := (arrays s)(ary \<mapsto> [])\<rparr>"
  have new: "rb_ary_new_capa E (sint n) s = (Inr ary, ?s1)"
    using assms(3) by (rule rb_ary_new_capa_returns)
  have e: "arrays ?s1 ary = Some (take (nat (sint (0 :: c_int))) vs)" by simp
  have z: "0 \<le> sint (0 :: c_int)" by simp
  have zn: "sint (0 :: c_int) \<le> sint n" using assms(1) by simp
  have l2: "rb_yield_values2_loop E ary vs 0 n ?s1 =
          (Inr (), ?s1\<lparr>arrays := (arrays ?s1)(ary \<mapsto> take (nat (sint n)) vs)\<rparr>)"
    by (rule rb_yield_values2_loop_fills [OF e z zn assms(2)])
  have l1: "rb_yield_values_loop E ary (IntArg n # map ValueArg vs) 0 n ?s1 =
          (Inr (), ?s1\<lparr>arrays := (arrays ?s1)(ary \<mapsto> take (nat (sint n)) vs)\<rparr>)"
    by (rule rb_yield_values_loop_fills [OF e z zn assms(2)])
  have 1: "rb_yield_values2 E n vs s =
           rb_yield_splat E ary (s\<lparr>host := h1, arrays := (arrays s)(ary \<mapsto> take (nat (sint n)) vs)\<rparr>)"
    by (simp add: rb_yield_values2_def then_do_def new l2)
  have 2: "rb_yield_values E n vs s =
           rb_yield_splat E ary (s\<lparr>host := h1, arrays := (arrays s)(ary \<mapsto> take (nat (sint n)) vs)\<rparr>)"
    by (simp add: rb_yield_values_def then_do_def new l1)
  have 3: "length (take (nat (sint n)) vs) = nat (sint n)" using assms by simp
  have 4: "\<forall>i < nat (sint n). take (nat (sint n)) vs ! i = vs ! i" by simp
  have 5: "n = 0 \<longrightarrow> take (nat (sint n)) vs = []" by simp
  show ?thesis using 1 2 3 4 5 by (intro conjI)
qed

theorem yield_values_pack_in_order_witness:
  "0 \<le> sint (3 :: c_int) \<and> sint (3 :: c_int) \<le> int (length [1, 2, 5 :: VALUE])
   \<and> ary_alloc sample_env (sint (3 :: c_int))
        (host (sample_state [Inr (Managed (RObject 2)), Inr (Managed (RObject 5))])) =
       (Inr 7, \<lparr>answers = [Inr (Managed (RObject 2)), Inr (Managed (RObject 5))], strings = []\<rparr>)
   \<and> fst (rb_yield_values2 sample_env 3 [1, 2, 5]
        (sample_state [Inr (Managed (RObject 2)), Inr (Managed (RObject 5))])) = Inr 5
   \<and> calls (snd (rb_yield_values2 sample_env 3 [1, 2, 5]
        (sample_state [Inr (Managed (RObject 2)), Inr (Managed (RObject 5))]))) =
       [Invoke RUBY_CEXT ''rb_block_proc'' [], Invoke RUBY_CEXT ''rb_yield_splat'' [Managed (RObject 7)]]
   \<and> arrays (snd (rb_yield_values2 sample_env 3 [1, 2, 5]
        (sample_state [Inr (Managed (RObject 2)), Inr (Managed (RObject 5))]))) 7 = Some [1, 2, 5]
   \<and> arrays (snd (rb_yield_values sample_env 3 [1, 2, 5]
        (sample_state [Inr (Managed (RObject 2)), Inr (Managed (RObject 5))]))) 7 = Some [1, 2, 5]"
proof -
  let ?s = "sample_state [Inr (Managed (RObject 2)), Inr (Managed (RObject 5))]"
  let ?h = "\<lparr>answers = [Inr (Managed (RObject 2)), Inr (Managed (RObject 5))], strings = []\<rparr>"
  have a: "0 \<le> sint (3 :: c_int)" by simp
  have b: "sint (3 :: c_int) \<le> int (length [1, 2, 5 :: VALUE])" by simp
  have c: "ary_alloc sample_env (sint (3 :: c_int)) (host ?s) = (Inr 7, ?h)"
    by (simp add: sample_defs)
  note inst = yield_values_pack_in_order [OF a b c]
  have tk: "take (nat (sint (3 :: c_int))) [1, 2, 5 :: VALUE] = [1, 2, 5]" by simp
  have sp: "rb_yield_splat sample_env 7 (?s\<lparr>host := ?h, arrays := (arrays ?s)(7 \<mapsto> [1, 2, 5])\<rparr>) =
      (Inr 5, \<lparr>host = \<lparr>answers = [], strings = []\<rparr>,
               calls = [Invoke RUBY_CEXT ''rb_block_proc'' [],
                        Invoke RUBY_CEXT ''rb_yield_splat'' [Managed (RObject 7)]],
               arrays = [7 \<mapsto> [1, 2, 5]]\<rparr>)"
    by (simp add: rb_yield_splat_def rb_block_given_p_def rb_block_proc_def NIL_P_def invoke_defs sample_defs)
  have 1: "fst (rb_yield_values2 sample_env 3 [1, 2, 5] ?s) = Inr 5"
    by (simp only: inst [THEN conjunct1] tk sp fst_conv)
  have 2: "calls (snd (rb_yield_values2 sample_env 3 [1, 2, 5] ?s)) =
       [Invoke RUBY_CEXT ''rb_block_proc'' [], Invoke RUBY_CEXT ''rb_yield_splat'' [Managed (RObject 7)]]"
    by (simp only: inst [THEN conjunct1] tk sp snd_conv cext_state.simps)
  have 3: "arrays (snd (rb_yield_values2 sample_env 3 [1, 2, 5] ?s)) 7 = Some [1, 2, 5]"
    by (simp only: inst [THEN conjunct1] tk sp snd_conv cext_state.simps fun_upd_same)
  have 4: "arrays (snd (rb_yield_values sample_env 3 [1, 2, 5] ?s)) 7 = Some [1, 2, 5]"
    by (simp only: inst [THEN conjunct2, THEN conjunct1] tk sp snd_conv cext_state.simps fun_upd_same)
  show ?thesis
    using a b c 1 2 3 4 by (intro conjI)
qed

subsection \<open>The functions that do not return\<close>

lemma rb_exc_raise_never_returns: "isl (fst (rb_exc_raise E exc s))"
  by (simp add: rb_exc_raise_def then_do_def rb_tr_error_def split: prod.splits sum.splits)

lemma rb_iter_break_value_never_returns: "isl (fst (rb_iter_break_value E v s))"
  by (simp add: rb_iter_break_value_def then_do_def rb_tr_error_def split: prod.splits sum.splits)

lemma rb_error_arity_never_returns: "isl (fst (rb_error_arity E argc min_n max_n s))"
  by (simp add: rb_error_arity_def then_do_def rb_exc_raise_never_returns split: prod.splits sum.splits)

text \<open>
  Claim C6. \<^verbatim>\<open>rb_error_arity\<close> and \<^verbatim>\<open>rb_iter_break_value\<close> never return to their
  caller, whatever their arguments and whatever the runtime answers (the outcome is
  always an \<open>Inl\<close>: an exception leaving the call, or the fatal error). When the runtime raises for the break invocation, that
  exception leaves \<^verbatim>\<open>rb_iter_break_value\<close>; when the invocation returns all the same,
  the call ends in the fatal error "rb_iter_break_value should not return".
  \<^verbatim>\<open>rb_error_arity\<close> asks the runtime for the message, builds the \<^verbatim>\<open>ArgumentError\<close>
  and raises it: the exception the runtime raises for the raise invocation leaves the
  call, and when that invocation returns all the same the call ends in the fatal error
  of \<^verbatim>\<open>rb_exc_raise\<close>.
\<close>

theorem raisers_never_return:
  "(\<exists>err. fst (rb_error_arity E argc min_n max_n s) = Inl err)
   \<and> (\<exists>err. fst (rb_iter_break_value E v s) = Inl err)
   \<and> (invoke_host E RUBY_CEXT ''rb_iter_break_value'' [Managed (rb_tr_unwrap E v)] (host s) = (Inl e, h')
        \<longrightarrow> fst (rb_iter_break_value E v s) = Inl (Raised e))
   \<and> (invoke_host E RUBY_CEXT ''rb_iter_break_value'' [Managed (rb_tr_unwrap E v)] (host s) = (Inr r, h')
        \<longrightarrow> fst (rb_iter_break_value E v s) = Inl (Fatal ''rb_iter_break_value should not return''))
   \<and> (invoke_host E RUBY_CEXT ''rb_arity_error_string'' [I32 argc, I32 min_n, I32 max_n] (host s) = (Inr msg, h1)
        \<and> rb_exc_new3 E (rb_eArgError E) (rb_tr_wrap E msg) h1 = (Inr exc, h2)
        \<longrightarrow> (invoke_host E RUBY_CEXT ''rb_exc_raise'' [Managed (rb_tr_unwrap E exc)] h2 = (Inl e, h3)
               \<longrightarrow> fst (rb_error_arity E argc min_n max_n s) = Inl (Raised e))
          \<and> (invoke_host E RUBY_CEXT ''rb_exc_raise'' [Managed (rb_tr_unwrap E exc)] h2 = (Inr r, h3)
               \<longrightarrow> fst (rb_error_arity E argc min_n max_n s) = Inl (Fatal ''rb_exc_raise should not return'')))"
proof (intro conjI impI)
  show "\<exists>err. fst (rb_error_arity E argc min_n max_n s) = Inl err"
    using rb_error_arity_never_returns [of E argc min_n max_n s] by (simp add: isl_def)
  show "\<exists>err. fst (rb_iter_break_value E v s) = Inl err"
    using rb_iter_break_value_never_returns [of E v s] by (simp add: isl_def)
next
  assume "invoke_host E RUBY_CEXT ''rb_iter_break_value'' [Managed (rb_tr_unwrap E v)] (host s) = (Inl e, h')"
  then show "fst (rb_iter_break_value E v s) = Inl (Raised e)"
    by (simp add: rb_iter_break_value_def invoke_defs)
next
  assume "invoke_host E RUBY_CEXT ''rb_iter_break_value'' [Managed (rb_tr_unwrap E v)] (host s) = (Inr r, h')"
  then show "fst (rb_iter_break_value E v s) = Inl (Fatal ''rb_iter_break_value should not return'')"
    by (simp add: rb_iter_break_value_def rb_tr_error_def invoke_defs)
next
  assume "invoke_host E RUBY_CEXT ''rb_arity_error_string'' [I32 argc, I32 min_n, I32 max_n] (host s) = (Inr msg, h1)
        \<and> rb_exc_new3 E (rb_eArgError E) (rb_tr_wrap E msg) h1 = (Inr exc, h2)"
    and "invoke_host E RUBY_CEXT ''rb_exc_raise'' [Managed (rb_tr_unwrap E exc)] h2 = (Inl e, h3)"
  then show "fst (rb_error_arity E argc min_n max_n s) = Inl (Raised e)"
    by (simp add: rb_error_arity_def rb_exc_raise_def invoke_defs)
next
  assume "invoke_host E RUBY_CEXT ''rb_arity_error_string'' [I32 argc, I32 min_n, I32 max_n] (host s) = (Inr msg, h1)
        \<and> rb_exc_new3 E (rb_eArgError E) (rb_tr_wrap E msg) h1 = (Inr exc, h2)"
    and "invoke_host E RUBY_CEXT ''rb_exc_raise'' [Managed (rb_tr_unwrap E exc)] h2 = (Inr r, h3)"
  then show "fst (rb_error_arity E argc min_n max_n s) = Inl (Fatal ''rb_exc_raise should not return'')"
    by (simp add: rb_error_arity_def rb_exc_raise_def rb_tr_error_def invoke_defs)
qed

theorem raisers_never_return_witness:
  "invoke_host sample_env RUBY_CEXT ''rb_iter_break_value'' [Managed (sample_unwrap 2)]
       (host (sample_state [Inr (Managed RNil)])) = (Inr (Managed RNil), \<lparr>answers = [], strings = []\<rparr>)
   \<and> fst (rb_iter_break_value sample_env 2 (sample_state [Inr (Managed RNil)])) =
       Inl (Fatal ''rb_iter_break_value should not return'')
   \<and> invoke_host sample_env RUBY_CEXT ''rb_iter_break_value'' [Managed (sample_unwrap 2)]
       (host (sample_state [Inl (RObject 2)])) = (Inl (RObject 2), \<lparr>answers = [], strings = []\<rparr>)
   \<and> fst (rb_iter_break_value sample_env 2 (sample_state [Inl (RObject 2)])) = Inl (Raised (RObject 2))
   \<and> fst (rb_error_arity sample_env 1 2 3
        (sample_state [Inr (Managed (RString ''wrong number of arguments'')),
                       Inl (RException ''ArgumentError'' ''wrong number of arguments'')])) =
       Inl (Raised (RException ''ArgumentError'' ''wrong number of arguments''))"
proof -
  have a: "invoke_host sample_env RUBY_CEXT ''rb_iter_break_value'' [Managed (rb_tr_unwrap sample_env 2)]
       (host (sample_state [Inr (Managed RNil)])) = (Inr (Managed RNil), \<lparr>answers = [], strings = []\<rparr>)"
    by (simp add: sample_defs)
  have 1: "fst (rb_iter_break_value sample_env 2 (sample_state [Inr (Managed RNil)])) =
       Inl (Fatal ''rb_iter_break_value should not return'')"
    using raisers_never_return [of sample_env 0 0 0 "sample_state [Inr (Managed RNil)]" 2 RNil
        "\<lparr>answers = [], strings = []\<rparr>" "Managed RNil",
        THEN conjunct2, THEN conjunct2, THEN conjunct2, THEN conjunct1] a
    by blast
  have b: "invoke_host sample_env RUBY_CEXT ''rb_iter_break_value'' [Managed (rb_tr_unwrap sample_env 2)]
       (host (sample_state [Inl (RObject 2)])) = (Inl (RObject 2), \<lparr>answers = [], strings = []\<rparr>)"
    by (simp add: sample_defs)
  have 2: "fst (rb_iter_break_value sample_env 2 (sample_state [Inl (RObject 2)])) = Inl (Raised (RObject 2))"
    using raisers_never_return [of sample_env 0 0 0 "sample_state [Inl (RObject 2)]" 2 "RObject 2"
        "\<lparr>answers = [], strings = []\<rparr>" "Managed RNil",
        THEN conjunct2, THEN conjunct2, THEN conjunct1] b
    by blast
  have 3: "fst (rb_error_arity sample_env 1 2 3
        (sample_state [Inr (Managed (RString ''wrong number of arguments'')),
                       Inl (RException ''ArgumentError'' ''wrong number of arguments'')])) =
       Inl (Raised (RException ''ArgumentError'' ''wrong number of arguments''))"
    by (simp add: rb_error_arity_def rb_exc_raise_def invoke_defs sample_defs)
  have a': "invoke_host sample_env RUBY_CEXT ''rb_iter_break_value'' [Managed (sample_unwrap 2)]
       (host (sample_state [Inr (Managed RNil)])) = (Inr (Managed RNil), \<lparr>answers = [], strings = []\<rparr>)"
    using a by (simp add: sample_env_def)
  have b': "invoke_host sample_env RUBY_CEXT ''rb_iter_break_value'' [Managed (sample_unwrap 2)]
       (host (sample_state [Inl (RObject 2)])) = (Inl (RObject 2), \<lparr>answers = [], strings = []\<rparr>)"
    using b by (simp add: sample_env_def)
  show ?thesis
    using a' 1 b' 2 3 by (intro conjI)
qed

subsection \<open>Formatted strings\<close>

lemma directives_literal:
  "CHR ''%'' \<notin> set fmt \<Longrightarrow> directives fmt args = Printed fmt"
  by (induction fmt args rule: directives.induct) auto

lemma c_str_idem: "c_str (c_str bytes) = c_str bytes"
  by (simp add: c_str_def)

lemma c_str_replicate: "c \<noteq> CHR 0x00 \<Longrightarrow> c_str (replicate n c) = replicate n c"
  by (simp add: c_str_def)

lemma c_str_no_nul: "CHR 0x00 \<notin> set bytes \<Longrightarrow> c_str bytes = bytes"
  by (auto simp: c_str_def takeWhile_eq_all_conv)

lemma vasprintf_literal:
  "CHR ''%'' \<notin> set (c_str format) \<Longrightarrow> length (c_str format) \<le> 2 ^ 31 - 1 \<Longrightarrow>
   vasprintf format args = Printed (c_str format)"
  by (simp add: vasprintf_def directives_literal)

text \<open>
  Claim C7 says that for every format string the result of \<^verbatim>\<open>rb_sprintf\<close> and
  \<^verbatim>\<open>rb_enc_sprintf\<close> without format arguments has the bytes of the format string. It
  fails for a format with a directive that takes no argument: the format \<^verbatim>\<open>%%\<close>, two
  bytes, gives the one-byte string \<^verbatim>\<open>%\<close> (here tagged with the encoding 1 that the
  sample runtime has for ASCII-8BIT, and with the encoding 3 asked for).
\<close>

theorem sprintf_percent_counterexample:
  "rb_sprintf sample_env ''%%'' [] (sample_state []) =
     (Inr 100, \<lparr>host = \<lparr>answers = [], strings = [(''%'', 1)]\<rparr>, calls = [], arrays = Map.empty\<rparr>)
   \<and> rb_enc_sprintf sample_env 3 ''%%'' [] (sample_state []) =
     (Inr 100, \<lparr>host = \<lparr>answers = [], strings = [(''%'', 3)]\<rparr>, calls = [], arrays = Map.empty\<rparr>)
   \<and> extern (rb_enc_str_new_cstr sample_env ''%%'' 3) (sample_state []) =
     (Inr 100, \<lparr>host = \<lparr>answers = [], strings = [(''%%'', 3)]\<rparr>, calls = [], arrays = Map.empty\<rparr>)"
  by (simp add: rb_sprintf_def rb_enc_sprintf_def rb_vsprintf_def rb_enc_vsprintf_def vasprintf_def
      c_str_def extern_def sample_env_def sample_state_def)

text \<open>
  A format of \<open>2\<^sup>3\<^sup>1\<close> bytes or more has no result either: \<^verbatim>\<open>vasprintf\<close> fails and the
  call ends in the fatal error.
\<close>

lemma sprintf_overlong_format:
  "2 ^ 31 \<le> n \<Longrightarrow>
   rb_sprintf E (replicate n (CHR ''a'')) [] s = (Inl (Fatal ''vasprintf error''), s)"
  by (simp add: rb_sprintf_def rb_vsprintf_def rb_enc_vsprintf_def vasprintf_def c_str_replicate
      directives_literal rb_tr_error_def)

text \<open>
  Claim C7, amended. For every format string without a \<^verbatim>\<open>%\<close> and of at most
  \<^verbatim>\<open>INT_MAX\<close> bytes, formatted-string construction with zero format arguments builds
  the string from exactly the bytes of the format string (\<open>c_str format\<close>, the bytes up
  to the terminating NUL: the whole of a format without a NUL), with the encoding given to \<^verbatim>\<open>rb_enc_sprintf\<close> and
  \<^verbatim>\<open>rb_enc_vsprintf\<close>, and with the ASCII-8BIT encoding for the entry points without
  an encoding, \<^verbatim>\<open>rb_sprintf\<close> and \<^verbatim>\<open>rb_vsprintf\<close>.
\<close>

theorem sprintf_literal_format:
  assumes "CHR ''%'' \<notin> set (c_str format)" and "length (c_str format) \<le> 2 ^ 31 - 1"
  shows "rb_enc_sprintf E enc format [] = extern (rb_enc_str_new_cstr E (c_str format) enc)
       \<and> rb_enc_vsprintf E enc format [] = extern (rb_enc_str_new_cstr E (c_str format) enc)
       \<and> rb_sprintf E format [] = extern (rb_enc_str_new_cstr E (c_str format) (rb_ascii8bit_encoding E))
       \<and> rb_vsprintf E format [] = extern (rb_enc_str_new_cstr E (c_str format) (rb_ascii8bit_encoding E))
       \<and> (CHR 0x00 \<notin> set format \<longrightarrow> c_str format = format)"
  using assms
  by (simp add: rb_enc_sprintf_def rb_sprintf_def rb_vsprintf_def rb_enc_vsprintf_def
      vasprintf_literal c_str_idem c_str_no_nul)

theorem sprintf_literal_format_witness:
  "CHR ''%'' \<notin> set (c_str ''hello'') \<and> length (c_str ''hello'') \<le> 2 ^ 31 - 1
   \<and> rb_enc_sprintf sample_env 3 ''hello'' [] (sample_state []) =
       (Inr 100, \<lparr>host = \<lparr>answers = [], strings = [(''hello'', 3)]\<rparr>, calls = [], arrays = Map.empty\<rparr>)
   \<and> rb_sprintf sample_env ''hello'' [] (sample_state []) =
       (Inr 100, \<lparr>host = \<lparr>answers = [], strings = [(''hello'', 1)]\<rparr>, calls = [], arrays = Map.empty\<rparr>)"
proof -
  have a: "CHR ''%'' \<notin> set (c_str ''hello'')" by (simp add: c_str_def)
  have b: "length (c_str ''hello'') \<le> 2 ^ 31 - 1" by (simp add: c_str_def)
  have c: "c_str ''hello'' = ''hello''" by (simp add: c_str_def)
  note inst = sprintf_literal_format [OF a b, of sample_env 3, unfolded c]
  have 1: "rb_enc_sprintf sample_env 3 ''hello'' [] (sample_state []) =
       (Inr 100, \<lparr>host = \<lparr>answers = [], strings = [(''hello'', 3)]\<rparr>, calls = [], arrays = Map.empty\<rparr>)"
    unfolding inst [THEN conjunct1] by (simp add: extern_def sample_env_def sample_state_def)
  have 2: "rb_sprintf sample_env ''hello'' [] (sample_state []) =
       (Inr 100, \<lparr>host = \<lparr>answers = [], strings = [(''hello'', 1)]\<rparr>, calls = [], arrays = Map.empty\<rparr>)"
    unfolding inst [THEN conjunct2, THEN conjunct2, THEN conjunct1]
    by (simp add: extern_def sample_env_def sample_state_def)
  show ?thesis
    using a b 1 2 by (intro conjI)
qed

subsection \<open>Arity check\<close>

text \<open>
  Claim C9. Whenever the bridge operation \<^verbatim>\<open>rb_check_arity\<close> returns normally,
  \<^verbatim>\<open>rb_check_arity(argc, min, max)\<close> returns exactly its \<open>argc\<close> argument: the raw
  result \<open>r\<close> of the invocation, whatever it is, is dropped. The call leaves its one
  invocation in the record and the runtime in the state the invocation left it in.
\<close>

theorem rb_check_arity_returns_argc:
  "invoke_host E RUBY_CEXT ''rb_check_arity'' [I32 argc, I32 min_n, I32 max_n] (host s) = (Inr r, h') \<Longrightarrow>
   rb_check_arity E argc min_n max_n s =
     (Inr argc,
      s\<lparr>host := h',
        calls := calls s @ [Invoke RUBY_CEXT ''rb_check_arity'' [I32 argc, I32 min_n, I32 max_n]]\<rparr>)"
  by (simp add: rb_check_arity_def then_do_def polyglot_invoke_def ret_def)

theorem rb_check_arity_returns_argc_witness:
  "invoke_host sample_env RUBY_CEXT ''rb_check_arity'' [I32 2, I32 1, I32 3]
       (host (sample_state [Inr (Managed (RObject 2))]))
     = (Inr (Managed (RObject 2)), \<lparr>answers = [], strings = []\<rparr>) \<and>
   rb_check_arity sample_env 2 1 3 (sample_state [Inr (Managed (RObject 2))]) =
     (Inr 2, \<lparr>host = \<lparr>answers = [], strings = []\<rparr>,
              calls = [Invoke RUBY_CEXT ''rb_check_arity'' [I32 2, I32 1, I32 3]],
              arrays = Map.empty\<rparr>)"
proof -
  have h: "invoke_host sample_env RUBY_CEXT ''rb_check_arity'' [I32 2, I32 1, I32 3]
             (host (sample_state [Inr (Managed (RObject 2))]))
           = (Inr (Managed (RObject 2)), \<lparr>answers = [], strings = []\<rparr>)"
    by (simp add: sample_env_def sample_state_def scripted_def)
  show ?thesis
    using h rb_check_arity_returns_argc [OF h] by (simp add: sample_state_def)
qed

subsection \<open>Instance variables\<close>






text \<open>
  Claim C10. Whenever the bridge operation \<^verbatim>\<open>rb_ivar_set\<close> returns normally,
  \<^verbatim>\<open>rb_ivar_set\<close> and \<^verbatim>\<open>rb_iv_set\<close> return exactly the value handle they were given:
  the raw result \<open>r\<close> of the invocation is neither wrapped nor returned. (For
  \<^verbatim>\<open>rb_iv_set\<close> the name is first made a string and then a symbol token by the
  constructors of the other C files, which have to return as well.)
\<close>

theorem ivar_set_returns_its_argument:
  "(invoke_host E RUBY_CEXT ''rb_ivar_set''
        [Managed (rb_tr_unwrap E object), Managed (rb_tr_unwrap E (ID2SYM E name)),
         Managed (rb_tr_unwrap E val)] (host s) = (Inr r, h')
      \<longrightarrow> rb_ivar_set E object name val s =
            (Inr val,
             s\<lparr>host := h',
               calls := calls s @ [Invoke RUBY_CEXT ''rb_ivar_set''
                 [Managed (rb_tr_unwrap E object), Managed (rb_tr_unwrap E (ID2SYM E name)),
                  Managed (rb_tr_unwrap E val)]]\<rparr>))
   \<and>
   (rb_str_new_cstr E cname (host s) = (Inr str, h1) \<and> rb_to_id E str h1 = (Inr name_id, h2) \<and>
    invoke_host E RUBY_CEXT ''rb_ivar_set''
        [Managed (rb_tr_unwrap E object), Managed (rb_tr_unwrap E (ID2SYM E name_id)),
         Managed (rb_tr_unwrap E val)] h2 = (Inr r, h3)
      \<longrightarrow> rb_iv_set E object cname val s =
            (Inr val,
             s\<lparr>host := h3,
               calls := calls s @ [Invoke RUBY_CEXT ''rb_ivar_set''
                 [Managed (rb_tr_unwrap E object), Managed (rb_tr_unwrap E (ID2SYM E name_id)),
                  Managed (rb_tr_unwrap E val)]]\<rparr>))"
proof (intro conjI impI)
  assume "invoke_host E RUBY_CEXT ''rb_ivar_set''
        [Managed (rb_tr_unwrap E object), Managed (rb_tr_unwrap E (ID2SYM E name)),
         Managed (rb_tr_unwrap E val)] (host s) = (Inr r, h')"
  then show "rb_ivar_set E object name val s =
            (Inr val,
             s\<lparr>host := h',
               calls := calls s @ [Invoke RUBY_CEXT ''rb_ivar_set''
                 [Managed (rb_tr_unwrap E object), Managed (rb_tr_unwrap E (ID2SYM E name)),
                  Managed (rb_tr_unwrap E val)]]\<rparr>)"
    by (simp add: rb_ivar_set_def invoke_defs)
next
  assume a: "rb_str_new_cstr E cname (host s) = (Inr str, h1) \<and> rb_to_id E str h1 = (Inr name_id, h2) \<and>
    invoke_host E RUBY_CEXT ''rb_ivar_set''
        [Managed (rb_tr_unwrap E object), Managed (rb_tr_unwrap E (ID2SYM E name_id)),
         Managed (rb_tr_unwrap E val)] h2 = (Inr r, h3)"
  then show "rb_iv_set E object cname val s =
            (Inr val,
             s\<lparr>host := h3,
               calls := calls s @ [Invoke RUBY_CEXT ''rb_ivar_set''
                 [Managed (rb_tr_unwrap E object), Managed (rb_tr_unwrap E (ID2SYM E name_id)),
                  Managed (rb_tr_unwrap E val)]]\<rparr>)"
    by (simp add: rb_iv_set_def invoke_defs)
qed

theorem ivar_set_returns_its_argument_witness:
  "invoke_host sample_env RUBY_CEXT ''rb_ivar_set''
        [Managed (rb_tr_unwrap sample_env 1), Managed (rb_tr_unwrap sample_env (ID2SYM sample_env 3)),
         Managed (rb_tr_unwrap sample_env 2)] (host (sample_state [Inr (Managed RNil)])) =
      (Inr (Managed RNil), \<lparr>answers = [], strings = []\<rparr>)
   \<and> rb_tr_wrap sample_env (Managed RNil) = 0
   \<and> rb_ivar_set sample_env 1 3 2 (sample_state [Inr (Managed RNil)]) =
      (Inr 2,
       \<lparr>host = \<lparr>answers = [], strings = []\<rparr>,
        calls = [Invoke RUBY_CEXT ''rb_ivar_set''
                   [Managed (RObject 1), Managed (RSymbol ''@count''), Managed (RObject 2)]],
        arrays = Map.empty\<rparr>)
   \<and> rb_iv_set sample_env 1 ''@count'' 2 (sample_state [Inr (Managed RNil)]) =
      (Inr 2,
       \<lparr>host = \<lparr>answers = [], strings = [(''@count'', 0)]\<rparr>,
        calls = [Invoke RUBY_CEXT ''rb_ivar_set''
                   [Managed (RObject 1), Managed (RSymbol ''@count''), Managed (RObject 2)]],
        arrays = Map.empty\<rparr>)"
proof -
  let ?s = "sample_state [Inr (Managed RNil)]"
  let ?args = "[Managed (rb_tr_unwrap sample_env 1), Managed (rb_tr_unwrap sample_env (ID2SYM sample_env 3)),
         Managed (rb_tr_unwrap sample_env 2)]"
  have args: "?args = [Managed (RObject 1), Managed (RSymbol ''@count''), Managed (RObject 2)]"
    by (simp add: sample_defs)
  have a: "invoke_host sample_env RUBY_CEXT ''rb_ivar_set'' ?args (host ?s) =
      (Inr (Managed RNil), \<lparr>answers = [], strings = []\<rparr>)"
    by (simp add: sample_defs)
  have w: "rb_tr_wrap sample_env (Managed RNil) = 0"
    by (simp add: sample_defs)
  have b: "rb_str_new_cstr sample_env ''@count'' (host ?s) =
      (Inr 100, \<lparr>answers = [Inr (Managed RNil)], strings = [(''@count'', 0)]\<rparr>)"
    by (simp add: sample_defs)
  have c: "rb_to_id sample_env 100 \<lparr>answers = [Inr (Managed RNil)], strings = [(''@count'', 0)]\<rparr> =
      (Inr 3, \<lparr>answers = [Inr (Managed RNil)], strings = [(''@count'', 0)]\<rparr>)"
    by (simp add: sample_defs)
  have d: "invoke_host sample_env RUBY_CEXT ''rb_ivar_set'' ?args
        \<lparr>answers = [Inr (Managed RNil)], strings = [(''@count'', 0)]\<rparr> =
      (Inr (Managed RNil), \<lparr>answers = [], strings = [(''@count'', 0)]\<rparr>)"
    by (simp add: sample_defs)
  note inst = ivar_set_returns_its_argument [of sample_env 1 3 2 ?s "Managed RNil"
      "\<lparr>answers = [], strings = []\<rparr>" "''@count''" 100
      "\<lparr>answers = [Inr (Managed RNil)], strings = [(''@count'', 0)]\<rparr>" 3
      "\<lparr>answers = [Inr (Managed RNil)], strings = [(''@count'', 0)]\<rparr>"
      "\<lparr>answers = [], strings = [(''@count'', 0)]\<rparr>"]
  have "rb_ivar_set sample_env 1 3 2 ?s =
      (Inr 2, ?s\<lparr>host := \<lparr>answers = [], strings = []\<rparr>,
                 calls := calls ?s @ [Invoke RUBY_CEXT ''rb_ivar_set'' ?args]\<rparr>)"
    using inst [THEN conjunct1] a by blast
  then have 1: "rb_ivar_set sample_env 1 3 2 ?s =
      (Inr 2,
       \<lparr>host = \<lparr>answers = [], strings = []\<rparr>,
        calls = [Invoke RUBY_CEXT ''rb_ivar_set''
                   [Managed (RObject 1), Managed (RSymbol ''@count''), Managed (RObject 2)]],
        arrays = Map.empty\<rparr>)"
    unfolding args by (simp add: sample_state_def)
  have "rb_iv_set sample_env 1 ''@count'' 2 ?s =
      (Inr 2, ?s\<lparr>host := \<lparr>answers = [], strings = [(''@count'', 0)]\<rparr>,
                 calls := calls ?s @ [Invoke RUBY_CEXT ''rb_ivar_set'' ?args]\<rparr>)"
    using inst [THEN conjunct2] b c d by blast
  then have 2: "rb_iv_set sample_env 1 ''@count'' 2 ?s =
      (Inr 2,
       \<lparr>host = \<lparr>answers = [], strings = [(''@count'', 0)]\<rparr>,
        calls = [Invoke RUBY_CEXT ''rb_ivar_set''
                   [Managed (RObject 1), Managed (RSymbol ''@count''), Managed (RObject 2)]],
        arrays = Map.empty\<rparr>)"
    unfolding args by (simp add: sample_state_def)
  show ?thesis
    using a w 1 2 by (intro conjI)
qed

end
